theory Spec2Isabelle
  imports Complex_Main "HOL-Library.AList"
begin

section \<open>Python values\<close>

text \<open>
  The client handles the values that \<^verbatim>\<open>response.json()\<close> produces: \<^verbatim>\<open>None\<close>, booleans,
  integers, floats, strings, lists and dictionaries with string keys. A dictionary is an
  association list in insertion order; lookup takes the first entry of a key (a parsed
  dictionary has each key once). Strings are ASCII text, one \<open>char\<close> per character.

  A float is an IEEE 754 double: \<open>PFinite s m e\<close> is \<open>(-1)\<^sup>s * m * 2\<^sup>e\<close> with \<open>m\<close> odd,
  or \<open>m = 0\<close> and \<open>e = 0\<close> for the two zeros.
\<close>

datatype pyfloat = PFinite bool int int | PInf bool | PNaN

datatype pyval =
    PyNone
  | PyBool bool
  | PyInt int
  | PyFloat pyfloat
  | PyStr string
  | PyList "pyval list"
  | PyDict "(string \<times> pyval) list"

text \<open>
  The exceptions of \<^verbatim>\<open>client.py\<close>, and the built-in ones its expressions can raise.
  \<open>RequestException\<close> stands for \<^verbatim>\<open>requests.exceptions.RequestException\<close> and its
  subclasses, with \<^verbatim>\<open>str(e)\<close> as argument. A \<open>ModexiaPaymentError\<close> is raised with whatever
  object the code passes to it.
\<close>

datatype exn =
    ModexiaAuthError string
  | ModexiaPaymentError pyval
  | ModexiaNetworkError string
  | RequestException string
  | AttributeError
  | ValueError

text \<open>\<^verbatim>\<open>obj.get(key, default)\<close>: only a dictionary has the method.\<close>

fun py_get :: "pyval \<Rightarrow> string \<Rightarrow> pyval \<Rightarrow> exn + pyval" where
  "py_get (PyDict kvs) k d = Inr (case map_of kvs k of Some v \<Rightarrow> v | None \<Rightarrow> d)"
| "py_get _ k d = Inl AttributeError"

text \<open>Decimal text of a non-negative integer, and \<^verbatim>\<open>str\<close> of an integer.\<close>

function str_nat :: "int \<Rightarrow> string" where
  "str_nat n =
     (if n < 10 then [''0123456789'' ! nat n]
      else str_nat (n div 10) @ [''0123456789'' ! nat (n mod 10)])"
  by pat_completeness auto
termination
  by (relation "measure nat") auto

definition str_int :: "int \<Rightarrow> string" where
  "str_int n = (if n < 0 then CHR ''-'' # str_nat (- n) else str_nat n)"

text \<open>\<^verbatim>\<open>str.upper()\<close> and \<^verbatim>\<open>str.lower()\<close>, on ASCII letters.\<close>

definition upper_char :: "char \<Rightarrow> char" where
  "upper_char c =
     (case map_of (zip ''abcdefghijklmnopqrstuvwxyz'' ''ABCDEFGHIJKLMNOPQRSTUVWXYZ'') c of
        Some u \<Rightarrow> u
      | None \<Rightarrow> c)"

definition lower_char :: "char \<Rightarrow> char" where
  "lower_char c =
     (case map_of (zip ''ABCDEFGHIJKLMNOPQRSTUVWXYZ'' ''abcdefghijklmnopqrstuvwxyz'') c of
        Some l \<Rightarrow> l
      | None \<Rightarrow> c)"

definition upper :: "string \<Rightarrow> string" where
  "upper s = map upper_char s"

definition lower :: "string \<Rightarrow> string" where
  "lower s = map lower_char s"

text \<open>\<^verbatim>\<open>obj.upper()\<close>: only a string has the method.\<close>

fun py_upper :: "pyval \<Rightarrow> exn + string" where
  "py_upper (PyStr s) = Inr (upper s)"
| "py_upper _ = Inl AttributeError"

text \<open>Truth value of an object, as \<^verbatim>\<open>if obj:\<close> and \<^verbatim>\<open>and\<close> test it.\<close>

fun py_truthy :: "pyval \<Rightarrow> bool" where
  "py_truthy PyNone = False"
| "py_truthy (PyBool b) = b"
| "py_truthy (PyInt n) = (n \<noteq> 0)"
| "py_truthy (PyFloat (PFinite s m e)) = (m \<noteq> 0)"
| "py_truthy (PyFloat (PInf s)) = True"
| "py_truthy (PyFloat PNaN) = True"
| "py_truthy (PyStr s) = (s \<noteq> [])"
| "py_truthy (PyList xs) = (xs \<noteq> [])"
| "py_truthy (PyDict kvs) = (kvs \<noteq> [])"

subsection \<open>Floats: \<^verbatim>\<open>float(s)\<close>\<close>

text \<open>
  \<^verbatim>\<open>float\<close> of a string turns the two spaces beyond ASCII that an 8-bit header value can
  hold (0x85 and 0xA0) into blanks, accepts single underscores between digits, strips the
  white space of C (tab, line feed, vertical tab, form feed, carriage return, blank) from
  both ends, and reads an optional sign followed by \<^verbatim>\<open>inf\<close>, \<^verbatim>\<open>infinity\<close> or \<^verbatim>\<open>nan\<close> in any
  case, or by a decimal number with an optional exponent. The number is rounded to the
  nearest double, ties to even; beyond the largest double it is an infinity. Anything else
  raises \<^verbatim>\<open>ValueError\<close>; the separators 0x1C to 0x1F are not stripped.
\<close>

definition is_digit :: "char \<Rightarrow> bool" where
  "is_digit c = (c \<in> set ''0123456789'')"

definition is_space :: "char \<Rightarrow> bool" where
  "is_space c = (of_char c \<in> set [9, 10, 11, 12, 13, 32 :: nat])"

definition to_ascii_space :: "char \<Rightarrow> char" where
  "to_ascii_space c = (if of_char c \<in> set [0x85, 0xA0 :: nat] then CHR '' '' else c)"

definition strip :: "string \<Rightarrow> string" where
  "strip s = rev (dropWhile is_space (rev (dropWhile is_space s)))"

definition digit_val :: "char \<Rightarrow> int" where
  "digit_val c =
     (case map_of (zip ''0123456789'' [0, 1, 2, 3, 4, 5, 6, 7, 8, 9]) c of
        Some d \<Rightarrow> d
      | None \<Rightarrow> 0)"

definition digits_val :: "string \<Rightarrow> int" where
  "digits_val ds = foldl (\<lambda>acc c. acc * 10 + digit_val c) 0 ds"

text \<open>An underscore is legal only between two digits; \<open>prev\<close> is the character before.\<close>

fun drop_underscores :: "char \<Rightarrow> string \<Rightarrow> string option" where
  "drop_underscores prev [] = (if prev = CHR ''_'' then None else Some [])"
| "drop_underscores prev (c # cs) =
     (if c = CHR ''_'' then
        (if is_digit prev then drop_underscores c cs else None)
      else if prev = CHR ''_'' \<and> \<not> is_digit c then None
      else map_option ((#) c) (drop_underscores c cs))"

definition split_sign :: "string \<Rightarrow> bool \<times> string" where
  "split_sign s =
     (case s of
        [] \<Rightarrow> (False, [])
      | c # cs \<Rightarrow>
          if c = CHR ''-'' then (True, cs) else if c = CHR ''+'' then (False, cs) else (False, s))"

text \<open>A decimal number as sign, integer mantissa and power of ten.\<close>

definition parse_decimal :: "string \<Rightarrow> (bool \<times> int \<times> int) option" where
  "parse_decimal s =
     (let (neg, r1) = split_sign s;
          ip = takeWhile is_digit r1;
          r2 = dropWhile is_digit r1;
          fp = (case r2 of [] \<Rightarrow> [] | c # cs \<Rightarrow> if c = CHR ''.'' then takeWhile is_digit cs else []);
          r3 = (case r2 of [] \<Rightarrow> [] | c # cs \<Rightarrow> if c = CHR ''.'' then dropWhile is_digit cs else r2)
      in if ip = [] \<and> fp = [] then None
         else (case r3 of
                 [] \<Rightarrow> Some (neg, digits_val (ip @ fp), - int (length fp))
               | c # r4 \<Rightarrow>
                   if c = CHR ''e'' \<or> c = CHR ''E'' then
                     (let (eneg, r5) = split_sign r4
                      in if r5 \<noteq> [] \<and> list_all is_digit r5 then
                           Some (neg, digits_val (ip @ fp),
                                 (if eneg then - digits_val r5 else digits_val r5) - int (length fp))
                         else None)
                   else None))"

function bits :: "int \<Rightarrow> int" where
  "bits n = (if n \<le> 0 then 0 else 1 + bits (n div 2))"
  by pat_completeness auto
termination
  by (relation "measure nat") auto

function decimal_len :: "int \<Rightarrow> int" where
  "decimal_len n = (if n \<le> 0 then 0 else 1 + decimal_len (n div 10))"
  by pat_completeness auto
termination
  by (relation "measure nat") auto

text \<open>\<open>b\<^sup>k \<le> n / d\<close>, for an integer \<open>k\<close> of either sign and positive \<open>n\<close>, \<open>d\<close>.\<close>

definition pow_le :: "int \<Rightarrow> int \<Rightarrow> int \<Rightarrow> int \<Rightarrow> bool" where
  "pow_le b k n d = (if k \<ge> 0 then d * b ^ nat k \<le> n else d \<le> n * b ^ nat (- k))"

definition floor_log2 :: "int \<Rightarrow> int \<Rightarrow> int" where
  "floor_log2 n d = (let k = bits n - bits d in if pow_le 2 k n d then k else k - 1)"

definition floor_log10 :: "int \<Rightarrow> int \<Rightarrow> int" where
  "floor_log10 n d = (let k = decimal_len n - decimal_len d in if pow_le 10 k n d then k else k - 1)"

text \<open>\<open>a / b\<close> rounded to the nearest integer, ties to even.\<close>

definition round_half_even :: "int \<Rightarrow> int \<Rightarrow> int" where
  "round_half_even a b =
     (let q = a div b; r = a mod b
      in if 2 * r < b then q else if 2 * r > b then q + 1 else if even q then q else q + 1)"

function odd_part :: "int \<Rightarrow> int \<Rightarrow> int \<times> int" where
  "odd_part m e = (if m \<noteq> 0 \<and> even m then odd_part (m div 2) (e + 1) else (m, e))"
  by pat_completeness auto
termination
  by (relation "measure (\<lambda>(m, e). nat \<bar>m\<bar>)") auto

text \<open>
  The double nearest to \<open>n / d\<close> (\<open>n \<ge> 0\<close>, \<open>d > 0\<close>): 53 bits of mantissa, the unit in
  the last place no smaller than \<open>2\<close> to the \<open>-1074\<close>, infinity from \<open>2\<close> to the \<open>1024\<close> on.
\<close>

definition round_double :: "bool \<Rightarrow> int \<Rightarrow> int \<Rightarrow> pyfloat" where
  "round_double s n d =
     (if n = 0 then PFinite s 0 0
      else
        let e = max (floor_log2 n d - 52) (- 1074);
            m = (if e \<ge> 0 then round_half_even n (d * 2 ^ nat e)
                 else round_half_even (n * 2 ^ nat (- e)) d)
        in if m = 0 then PFinite s 0 0
           else if e > 971 \<or> (e = 971 \<and> m \<ge> 2 ^ 53) then PInf s
           else (case odd_part m e of (m', e') \<Rightarrow> PFinite s m' e'))"

text \<open>The double nearest to \<open>c * 10\<^sup>q\<close>, for \<open>c \<ge> 0\<close>.\<close>

definition decimal_to_double :: "bool \<Rightarrow> int \<Rightarrow> int \<Rightarrow> pyfloat" where
  "decimal_to_double s c q =
     (if q \<ge> 0 then round_double s (c * 10 ^ nat q) 1 else round_double s c (10 ^ nat (- q)))"

definition py_float :: "string \<Rightarrow> exn + pyfloat" where
  "py_float s0 =
     (case drop_underscores (CHR 0x00) (map to_ascii_space s0) of
        None \<Rightarrow> Inl ValueError
      | Some s1 \<Rightarrow>
          (let s = strip s1 in
           case parse_decimal s of
             Some (neg, mant, ex) \<Rightarrow> Inr (decimal_to_double neg mant ex)
           | None \<Rightarrow>
               (let (neg, r) = split_sign s
                in if lower r = ''inf'' \<or> lower r = ''infinity'' then Inr (PInf neg)
                   else if lower r = ''nan'' then Inr PNaN
                   else Inl ValueError)))"

subsection \<open>Floats: \<^verbatim>\<open>str(x)\<close>\<close>

text \<open>
  \<^verbatim>\<open>str\<close> and \<^verbatim>\<open>repr\<close> of a float give the shortest decimal that reads back as the same
  double, the nearest one among those of that length: at most 17 significant digits.
  The digits are written in positional notation when the decimal point falls within
  \<^verbatim>\<open>0.0001\<close> and \<^verbatim>\<open>1e16\<close>, and with an exponent otherwise.

  For the positive fraction \<open>n / d\<close> and decimal position \<open>q\<close>, \<open>scaled_floor\<close> is the largest
  \<open>c\<close> with \<open>c * 10\<^sup>q \<le> n / d\<close>, and \<open>dist\<close> the distance from \<open>c * 10\<^sup>q\<close> to \<open>n / d\<close> in
  a unit common to all \<open>c\<close>.
\<close>

definition scaled_floor :: "int \<Rightarrow> int \<Rightarrow> int \<Rightarrow> int" where
  "scaled_floor n d q = (if q \<ge> 0 then n div (d * 10 ^ nat q) else (n * 10 ^ nat (- q)) div d)"

definition dist :: "int \<Rightarrow> int \<Rightarrow> int \<Rightarrow> int \<Rightarrow> int" where
  "dist n d c q = (if q \<ge> 0 then \<bar>c * 10 ^ nat q * d - n\<bar> else \<bar>c * d - n * 10 ^ nat (- q)\<bar>)"

text \<open>The decimal with \<open>k\<close> significant digits that reads back as \<open>n / d\<close>, if there is one.\<close>

definition shortest_at :: "int \<Rightarrow> int \<Rightarrow> int \<Rightarrow> (int \<times> int) option" where
  "shortest_at n d k =
     (let x = round_double False n d;
          q = floor_log10 n d - k + 1;
          lo = scaled_floor n d q;
          hi = lo + 1;
          lo_ok = (decimal_to_double False lo q = x);
          hi_ok = (decimal_to_double False hi q = x)
      in if lo_ok \<and> hi_ok then
           (if dist n d lo q < dist n d hi q then Some (lo, q)
            else if dist n d hi q < dist n d lo q then Some (hi, q)
            else if even lo then Some (lo, q) else Some (hi, q))
         else if lo_ok then Some (lo, q)
         else if hi_ok then Some (hi, q)
         else None)"

text \<open>The first length from \<open>k\<close> on that has such a decimal, trying \<open>fuel\<close> lengths.\<close>

fun shortest_from :: "int \<Rightarrow> int \<Rightarrow> nat \<Rightarrow> int \<Rightarrow> int \<times> int" where
  "shortest_from n d 0 k = (scaled_floor n d (floor_log10 n d - k + 1), floor_log10 n d - k + 1)"
| "shortest_from n d (Suc fuel) k =
     (case shortest_at n d k of
        Some r \<Rightarrow> r
      | None \<Rightarrow> shortest_from n d fuel (k + 1))"

function strip_zeros :: "int \<Rightarrow> int \<Rightarrow> int \<times> int" where
  "strip_zeros c q = (if c \<noteq> 0 \<and> c mod 10 = 0 then strip_zeros (c div 10) (q + 1) else (c, q))"
  by pat_completeness auto
termination
  by (relation "measure (\<lambda>(c, q). nat \<bar>c\<bar>)") auto

definition exponent_text :: "int \<Rightarrow> string" where
  "exponent_text ex =
     (let a = \<bar>ex\<bar>; ds = str_nat a
      in (if ex < 0 then ''e-'' else ''e+'') @ (if a < 10 then CHR ''0'' # ds else ds))"

text \<open>The digits \<open>ds\<close> with the decimal point after the first \<open>decpt\<close> of them.\<close>

definition format_digits :: "string \<Rightarrow> int \<Rightarrow> string" where
  "format_digits ds decpt =
     (if decpt \<le> - 4 \<or> decpt > 16 then
        (case ds of
           [] \<Rightarrow> []
         | c # cs \<Rightarrow> (if cs = [] then [c] else c # CHR ''.'' # cs) @ exponent_text (decpt - 1))
      else if decpt \<le> 0 then ''0.'' @ replicate (nat (- decpt)) (CHR ''0'') @ ds
      else if decpt \<ge> int (length ds) then ds @ replicate (nat decpt - length ds) (CHR ''0'') @ ''.0''
      else take (nat decpt) ds @ ''.'' @ drop (nat decpt) ds)"

definition float_repr :: "pyfloat \<Rightarrow> string" where
  "float_repr x =
     (case x of
        PNaN \<Rightarrow> ''nan''
      | PInf s \<Rightarrow> (if s then ''-inf'' else ''inf'')
      | PFinite s m e \<Rightarrow>
          (if s then ''-'' else []) @
          (if m = 0 then ''0.0''
           else
             let n = (if e \<ge> 0 then m * 2 ^ nat e else m);
                 d = (if e \<ge> 0 then 1 else 2 ^ nat (- e));
                 (c, q) = shortest_from n d 17 1;
                 (c', q') = strip_zeros c q;
                 ds = str_nat c'
             in format_digits ds (int (length ds) + q')))"

subsection \<open>\<^verbatim>\<open>str\<close> and \<^verbatim>\<open>repr\<close> of any value\<close>

definition hex2 :: "nat \<Rightarrow> string" where
  "hex2 n = [''0123456789abcdef'' ! (n div 16 mod 16), ''0123456789abcdef'' ! (n mod 16)]"

definition escape_char :: "char \<Rightarrow> char \<Rightarrow> string" where
  "escape_char quote c =
     (if c = quote \<or> c = CHR 0x5C then [CHR 0x5C, c]
      else if c = CHR 0x09 then [CHR 0x5C, CHR ''t'']
      else if c = CHR 0x0A then [CHR 0x5C, CHR ''n'']
      else if c = CHR 0x0D then [CHR 0x5C, CHR ''r'']
      else if of_char c < (32 :: nat) \<or> of_char c \<ge> (127 :: nat) then CHR 0x5C # CHR ''x'' # hex2 (of_char c)
      else [c])"

definition repr_str :: "string \<Rightarrow> string" where
  "repr_str s =
     (let quote = (if CHR 0x27 \<in> set s \<and> CHR 0x22 \<notin> set s then CHR 0x22 else CHR 0x27)
      in quote # concat (map (escape_char quote) s) @ [quote])"

fun join :: "string \<Rightarrow> string list \<Rightarrow> string" where
  "join sep [] = []"
| "join sep [x] = x"
| "join sep (x # y # ys) = x @ sep @ join sep (y # ys)"

fun py_repr :: "pyval \<Rightarrow> string" where
  "py_repr PyNone = ''None''"
| "py_repr (PyBool b) = (if b then ''True'' else ''False'')"
| "py_repr (PyInt n) = str_int n"
| "py_repr (PyFloat x) = float_repr x"
| "py_repr (PyStr s) = repr_str s"
| "py_repr (PyList xs) = ''['' @ join '', '' (map py_repr xs) @ '']''"
| "py_repr (PyDict kvs) =
     ''{'' @ join '', '' (map (\<lambda>kv. repr_str (fst kv) @ '': '' @ py_repr (snd kv)) kvs) @ ''}''"

text \<open>\<^verbatim>\<open>str(obj)\<close>, which is also what an f-string substitutes.\<close>

definition py_str :: "pyval \<Rightarrow> string" where
  "py_str v = (case v of PyStr s \<Rightarrow> s | _ \<Rightarrow> py_repr v)"

subsection \<open>The two regular expressions\<close>

text \<open>
  \<^verbatim>\<open>re.search(name + r'="([^"]+)"', s)\<close>: the leftmost place where \<open>name\<close>, an equals sign and
  a double quote are followed by one or more characters other than a double quote and
  then by a double quote. The result is \<^verbatim>\<open>group(1)\<close> of the match, \<open>None\<close> without a match.
\<close>

definition match_attr :: "string \<Rightarrow> string \<Rightarrow> string option" where
  "match_attr name s =
     (let opening = name @ [CHR ''='', CHR 0x22];
          rest = drop (length opening) s;
          val = takeWhile (\<lambda>c. c \<noteq> CHR 0x22) rest
      in if take (length opening) s = opening \<and> val \<noteq> [] \<and> dropWhile (\<lambda>c. c \<noteq> CHR 0x22) rest \<noteq> []
         then Some val else None)"

fun search_attr :: "string \<Rightarrow> string \<Rightarrow> string option" where
  "search_attr name [] = None"
| "search_attr name (c # cs) =
     (case match_attr name (c # cs) of
        Some v \<Rightarrow> Some v
      | None \<Rightarrow> search_attr name cs)"

section \<open>HTTP and the outside world\<close>

text \<open>
  A \<^verbatim>\<open>requests.Response\<close>, with the attributes the client reads. \<open>json\<close> is what
  \<^verbatim>\<open>response.json()\<close> does: \<open>Inr v\<close> returns \<open>v\<close>, \<open>Inl msg\<close> raises
  \<^verbatim>\<open>requests.exceptions.JSONDecodeError(msg)\<close>, which is a \<^verbatim>\<open>RequestException\<close>
  (requests 2.27 and later). Header lookup ignores case, as \<^verbatim>\<open>CaseInsensitiveDict\<close> does.
\<close>

record response =
  status_code :: int
  headers :: "(string \<times> string) list"
  content :: string
  text' :: string
  json :: "string + pyval"

definition headers_get :: "(string \<times> string) list \<Rightarrow> string \<Rightarrow> string \<Rightarrow> string" where
  "headers_get hs k d =
     (case map_of (map (\<lambda>kv. (lower (fst kv), snd kv)) hs) (lower k) of
        Some v \<Rightarrow> v
      | None \<Rightarrow> d)"

text \<open>
  A request as the client hands it to the library: through its session
  (\<^verbatim>\<open>self.session.request\<close>, which adds the API key header and the retry policy) or through
  the module function \<^verbatim>\<open>requests.get\<close>.
\<close>

datatype channel = Session | Plain

record http_request =
  via :: channel
  http_method :: string
  url :: string
  params :: "(string \<times> pyval) list option"
  req_headers :: "(string \<times> pyval) list"
  json_body :: "pyval option"
  req_timeout :: int

text \<open>
  The world outside the process: the wall clock \<^verbatim>\<open>time.time()\<close> in seconds, every request
  issued so far (oldest first), and the number of UUIDs drawn. The environment decides what
  a request returns, from the whole world at the time it is issued: a response or a
  \<^verbatim>\<open>RequestException\<close> (\<open>Inl\<close> its message), and the time the call took. The clock does
  not run backwards: a negative \<open>elapsed\<close> counts as zero.
\<close>

record world =
  now :: rat
  sent :: "http_request list"
  draws :: nat

record reply =
  elapsed :: rat
  outcome :: "string + response"

record env =
  http :: "world \<Rightarrow> http_request \<Rightarrow> reply"
  uuid4 :: "nat \<Rightarrow> string"

definition send :: "env \<Rightarrow> http_request \<Rightarrow> world \<Rightarrow> (string + response) \<times> world" where
  "send E rq w =
     (let r = http E w rq
      in (outcome r, w\<lparr>now := now w + max 0 (elapsed r), sent := sent w @ [rq]\<rparr>))"

text \<open>\<^verbatim>\<open>time.sleep(secs)\<close> and \<^verbatim>\<open>str(uuid.uuid4())\<close>.\<close>

definition sleep :: "rat \<Rightarrow> world \<Rightarrow> world" where
  "sleep secs w = w\<lparr>now := now w + secs\<rparr>"

definition draw_uuid :: "env \<Rightarrow> world \<Rightarrow> string \<times> world" where
  "draw_uuid E w = (uuid4 E (draws w), w\<lparr>draws := Suc (draws w)\<rparr>)"

section \<open>The client\<close>

record client =
  api_key :: string
  base_url :: string
  timeout :: int

text \<open>\<^verbatim>\<open>self.session.request(method, url, timeout=self.timeout, **kwargs)\<close>; the only keyword
  argument the client ever passes is \<^verbatim>\<open>json=payload\<close>.\<close>

definition session_request :: "client \<Rightarrow> string \<Rightarrow> string \<Rightarrow> pyval option \<Rightarrow> http_request" where
  "session_request c m u body =
     \<lparr>via = Session, http_method = m, url = u, params = None, req_headers = [],
      json_body = body, req_timeout = timeout c\<rparr>"

text \<open>\<^verbatim>\<open>ModexiaClient._request\<close>.\<close>

definition request :: "env \<Rightarrow> client \<Rightarrow> string \<Rightarrow> string \<Rightarrow> pyval option \<Rightarrow> world
    \<Rightarrow> (exn + pyval) \<times> world" where
  "request E c m endpoint body w =
     (let u = base_url c @ endpoint in
      case send E (session_request c m u body) w of
        (Inl msg, w') \<Rightarrow> (Inl (ModexiaNetworkError (''Connection failed: '' @ msg)), w')
      | (Inr r, w') \<Rightarrow>
          if status_code r = 401 \<or> status_code r = 403 then
            (Inl (ModexiaAuthError (''Unauthorized: '' @ text' r)), w')
          else if status_code r \<ge> 400 \<and> status_code r \<noteq> 402 then
            (let excerpt = take 512 (text' r);
                 fallback = PyStr (''HTTP '' @ str_int (status_code r) @ '' at '' @ u @ '': '' @ excerpt);
                 err = (case json r of
                          Inl _ \<Rightarrow> fallback
                        | Inr v \<Rightarrow> (case py_get v ''error'' (PyStr (text' r)) of
                                      Inl _ \<Rightarrow> fallback
                                    | Inr e \<Rightarrow> e))
             in (Inl (ModexiaPaymentError err), w'))
          else if content r \<noteq> [] then
            (case json r of
               Inl msg \<Rightarrow> (Inl (ModexiaNetworkError (''Connection failed: '' @ msg)), w')
             | Inr v \<Rightarrow> (Inr v, w'))
          else (Inr (PyDict []), w'))"



text \<open>
  \<^verbatim>\<open>ModexiaClient._poll_status\<close>. \<open>poll_loop\<close> is the \<^verbatim>\<open>while\<close> loop, with \<open>start\<close> the clock
  reading taken before it.
\<close>

lemma ceiling_less_step:
  fixes a b :: rat
  assumes "b + 2 \<le> a"
  shows "\<lceil>b\<rceil> < \<lceil>a\<rceil>"
proof -
  have "\<lceil>b\<rceil> + 2 = \<lceil>b + 2\<rceil>" by simp
  also have "\<dots> \<le> \<lceil>a\<rceil>" using assms by (rule ceiling_mono)
  finally show ?thesis by simp
qed

lemma send_now: "send E rq w = (out, w') \<Longrightarrow> now w \<le> now w'"
  by (auto simp: send_def Let_def)

lemma request_now: "request E c m endpoint body w = (res, w') \<Longrightarrow> now w \<le> now w'"
  by (auto simp: request_def Let_def split: prod.splits sum.splits if_splits dest: send_now)

function poll_loop :: "env \<Rightarrow> client \<Rightarrow> pyval \<Rightarrow> rat \<Rightarrow> world \<Rightarrow> (exn + pyval) \<times> world" where
  "poll_loop E c tx_id start w =
     (if now w - start < 30 then
        (case request E c ''GET'' (''/api/v1/agent/transaction/'' @ py_str tx_id) None w of
           (Inl e, w1) \<Rightarrow> (Inl e, w1)
         | (Inr data, w1) \<Rightarrow>
             (case py_get data ''state'' (PyStr []) of
                Inl e \<Rightarrow> (Inl e, w1)
              | Inr st \<Rightarrow>
                  (case py_upper st of
                     Inl e \<Rightarrow> (Inl e, w1)
                   | Inr state \<Rightarrow>
                       if state \<in> set [''COMPLETE'', ''COMPLETED''] then
                         (case py_get data ''txHash'' PyNone of
                            Inl e \<Rightarrow> (Inl e, w1)
                          | Inr tx_hash \<Rightarrow>
                              (Inr (PyDict [(''success'', PyBool True), (''txId'', tx_id),
                                            (''status'', PyStr ''COMPLETE''), (''txHash'', tx_hash)]), w1))
                       else if state = ''FAILED'' then
                         (case py_get data ''errorReason'' PyNone of
                            Inl e \<Rightarrow> (Inl e, w1)
                          | Inr reason \<Rightarrow>
                              (Inl (ModexiaPaymentError (PyStr (''Transfer Failed: '' @ py_str reason))), w1))
                       else poll_loop E c tx_id start (sleep 2 w1))))
      else (Inr (PyDict [(''success'', PyBool True), (''status'', PyStr ''PENDING''), (''txId'', tx_id)]), w))"
  by pat_completeness auto
termination
proof (relation "measure (\<lambda>(E, c, tx_id, start, w). nat \<lceil>30 - (now w - start)\<rceil>)", goal_cases)
  case 1
  show ?case by simp
next
  case (2 E c tx_id start w res w1 data st state)
  have "now w \<le> now w1"
    using request_now [OF 2(2) [symmetric]] .
  then have "(30 - (now (sleep 2 w1) - start)) + 2 \<le> 30 - (now w - start)"
    by (simp add: sleep_def)
  then have "\<lceil>30 - (now (sleep 2 w1) - start)\<rceil> < \<lceil>30 - (now w - start)\<rceil>"
    by (rule ceiling_less_step)
  moreover have "0 < \<lceil>30 - (now w - start)\<rceil>"
    using 2(1) by simp
  ultimately show ?case by simp
qed

declare poll_loop.simps [simp del]

definition poll_status :: "env \<Rightarrow> client \<Rightarrow> pyval \<Rightarrow> world \<Rightarrow> (exn + pyval) \<times> world" where
  "poll_status E c tx_id w = poll_loop E c tx_id (now w) w"

text \<open>\<^verbatim>\<open>ModexiaClient.transfer\<close>. An absent or empty key is replaced by a fresh UUID.\<close>

definition transfer :: "env \<Rightarrow> client \<Rightarrow> string \<Rightarrow> pyfloat \<Rightarrow> string option \<Rightarrow> bool \<Rightarrow> world
    \<Rightarrow> (exn + pyval) \<times> world" where
  "transfer E c recipient amount idempotency_key wait w =
     (let (ikey, w0) = (case idempotency_key of
                          None \<Rightarrow> draw_uuid E w
                        | Some k \<Rightarrow> if k \<noteq> [] then (k, w) else draw_uuid E w);
          payload = PyDict [(''providerAddress'', PyStr recipient),
                            (''amount'', PyStr (float_repr amount)),
                            (''idempotencyKey'', PyStr ikey)]
      in case request E c ''POST'' ''/api/v1/agent/pay'' (Some payload) w0 of
           (Inl e, w1) \<Rightarrow> (Inl e, w1)
         | (Inr data, w1) \<Rightarrow>
             if wait then
               (case py_get data ''success'' PyNone of
                  Inl e \<Rightarrow> (Inl e, w1)
                | Inr success \<Rightarrow>
                    if py_truthy success then
                      (case py_get data ''txId'' PyNone of
                         Inl e \<Rightarrow> (Inl e, w1)
                       | Inr tx_id \<Rightarrow> poll_status E c tx_id w1)
                    else (Inr data, w1))
             else (Inr data, w1))"

text \<open>\<^verbatim>\<open>ModexiaClient._negotiate_paywall\<close>; \<open>PyNone\<close> is the \<^verbatim>\<open>None\<close> it returns without paying.\<close>

definition negotiate_paywall :: "env \<Rightarrow> client \<Rightarrow> response \<Rightarrow> world \<Rightarrow> (exn + pyval) \<times> world" where
  "negotiate_paywall E c response_obj w =
     (let auth_header = headers_get (headers response_obj) ''WWW-Authenticate'' [];
          amt = search_attr ''amount'' auth_header;
          dst = search_attr ''destination'' auth_header
      in case (amt, dst) of
           (Some a, Some d) \<Rightarrow>
             (case py_float a of
                Inl e \<Rightarrow> (Inl e, w)
              | Inr amount \<Rightarrow> transfer E c d amount None True w)
         | _ \<Rightarrow> (Inr PyNone, w))"

text \<open>\<^verbatim>\<open>requests.get(url, params=params, headers=headers, timeout=self.timeout)\<close>.\<close>

definition plain_get :: "client \<Rightarrow> string \<Rightarrow> (string \<times> pyval) list option \<Rightarrow> (string \<times> pyval) list
    \<Rightarrow> http_request" where
  "plain_get c u ps hs =
     \<lparr>via = Plain, http_method = ''GET'', url = u, params = ps, req_headers = hs,
      json_body = None, req_timeout = timeout c\<rparr>"

text \<open>\<^verbatim>\<open>ModexiaClient.smart_fetch\<close>. An exception of \<^verbatim>\<open>requests.get\<close> is not caught.\<close>

definition smart_fetch :: "env \<Rightarrow> client \<Rightarrow> string \<Rightarrow> (string \<times> pyval) list option
    \<Rightarrow> (string \<times> pyval) list option \<Rightarrow> world \<Rightarrow> (exn + response) \<times> world" where
  "smart_fetch E c u ps hs0 w =
     (let hs = (case hs0 of None \<Rightarrow> [] | Some h \<Rightarrow> h) in
      case send E (plain_get c u ps hs) w of
        (Inl msg, w1) \<Rightarrow> (Inl (RequestException msg), w1)
      | (Inr r, w1) \<Rightarrow>
          if status_code r = 402 then
            (case negotiate_paywall E c r w1 of
               (Inl e, w2) \<Rightarrow> (Inl e, w2)
             | (Inr receipt, w2) \<Rightarrow>
                 if py_truthy receipt then
                   (case py_get receipt ''txId'' PyNone of
                      Inl e \<Rightarrow> (Inl e, w2)
                    | Inr t \<Rightarrow>
                        (let hs1 = AList.update ''Authorization'' (PyStr (''L402 '' @ py_str t)) hs;
                             hs2 = AList.update ''X-Payment-Proof'' t hs1
                         in case send E (plain_get c u ps hs2) w2 of
                              (Inl msg, w3) \<Rightarrow> (Inl (RequestException msg), w3)
                            | (Inr r2, w3) \<Rightarrow> (Inr r2, w3)))
                 else (Inr r, w2))
          else (Inr r, w1))"

subsection \<open>Names for what the payment engine sends and returns\<close>

text \<open>The status request of \<^verbatim>\<open>_poll_status\<close>, the submission of \<^verbatim>\<open>transfer\<close> with the amount
  as it stands in the JSON body, and the dictionary \<^verbatim>\<open>_poll_status\<close> returns after its loop.\<close>

definition poll_request :: "client \<Rightarrow> pyval \<Rightarrow> http_request" where
  "poll_request c tx_id =
     session_request c ''GET'' (base_url c @ ''/api/v1/agent/transaction/'' @ py_str tx_id) None"

definition pay_request :: "client \<Rightarrow> string \<Rightarrow> string \<Rightarrow> string \<Rightarrow> http_request" where
  "pay_request c recipient amount ikey =
     session_request c ''POST'' (base_url c @ ''/api/v1/agent/pay'')
       (Some (PyDict [(''providerAddress'', PyStr recipient), (''amount'', PyStr amount),
                      (''idempotencyKey'', PyStr ikey)]))"

definition pending_result :: "pyval \<Rightarrow> pyval" where
  "pending_result tx_id =
     PyDict [(''success'', PyBool True), (''status'', PyStr ''PENDING''), (''txId'', tx_id)]"

text \<open>
  \<open>iterates E c tx_id start w w'\<close>: the loop of \<^verbatim>\<open>_poll_status\<close>, entered in world \<open>w\<close>, is back at
  its test in world \<open>w'\<close>, after polls that neither returned nor raised.
\<close>

inductive iterates :: "env \<Rightarrow> client \<Rightarrow> pyval \<Rightarrow> rat \<Rightarrow> world \<Rightarrow> world \<Rightarrow> bool"
  for E c tx_id start
where
  entry: "iterates E c tx_id start w w"
| again: "iterates E c tx_id start w w' \<Longrightarrow> now w' - start < 30 \<Longrightarrow>
     request E c ''GET'' (''/api/v1/agent/transaction/'' @ py_str tx_id) None w' = (Inr data, w1) \<Longrightarrow>
     py_get data ''state'' (PyStr []) = Inr st \<Longrightarrow> py_upper st = Inr state \<Longrightarrow>
     state \<notin> set [''COMPLETE'', ''COMPLETED''] \<Longrightarrow> state \<noteq> ''FAILED'' \<Longrightarrow>
     iterates E c tx_id start w (sleep 2 w1)"

section \<open>Test fixtures\<close>

text \<open>A client with a test key, a fresh world, and a server that gives every request the
  same response at once.\<close>

definition client0 :: client where
  "client0 = \<lparr>api_key = ''mx_test_123'', base_url = ''https://sandbox.modexia.software'', timeout = 15\<rparr>"

definition world0 :: world where
  "world0 = \<lparr>now = 0, sent = [], draws = 0\<rparr>"

definition json_response :: "int \<Rightarrow> string \<Rightarrow> pyval \<Rightarrow> response" where
  "json_response st raw v = \<lparr>status_code = st, headers = [], content = raw, text' = raw, json = Inr v\<rparr>"

definition text_response :: "int \<Rightarrow> string \<Rightarrow> response" where
  "text_response st raw =
     \<lparr>status_code = st, headers = [], content = raw, text' = raw,
      json = Inl ''Expecting value: line 1 column 1 (char 0)''\<rparr>"

definition always :: "response \<Rightarrow> env" where
  "always r = \<lparr>http = (\<lambda>w rq. \<lparr>elapsed = 0, outcome = Inr r\<rparr>), uuid4 = (\<lambda>n. ''00000000-0000-4000-8000-000000000000'')\<rparr>"

definition failing :: "string \<Rightarrow> env" where
  "failing msg = \<lparr>http = (\<lambda>w rq. \<lparr>elapsed = 0, outcome = Inl msg\<rparr>), uuid4 = (\<lambda>n. ''00000000-0000-4000-8000-000000000000'')\<rparr>"

definition long_body :: string where
  "long_body = ''{\"message\": \"'' @ replicate 600 (CHR ''x'') @ ''\"}''"

definition long_body_json :: pyval where
  "long_body_json = PyDict [(''message'', PyStr (replicate 600 (CHR ''x'')))]"

text \<open>A server that answers the \<open>n\<close>-th request of a run with the \<open>n\<close>-th response of a list
  (the last one from then on), and the responses of the repository's tests.\<close>

definition scripted :: "response list \<Rightarrow> env" where
  "scripted rs =
     \<lparr>http = (\<lambda>w rq. \<lparr>elapsed = 0, outcome = Inr (rs ! min (length (sent w)) (length rs - 1))\<rparr>),
      uuid4 = (\<lambda>n. ''00000000-0000-4000-8000-000000000000'')\<rparr>"

definition state_response :: "string \<Rightarrow> response" where
  "state_response s =
     json_response 200 (''{\"state\": \"'' @ s @ ''\"}'') (PyDict [(''state'', PyStr s)])"

definition failed_response :: response where
  "failed_response =
     json_response 200 ''{\"state\": \"failed\", \"errorReason\": \"insufficient funds\"}''
       (PyDict [(''state'', PyStr ''failed''), (''errorReason'', PyStr ''insufficient funds'')])"

definition complete_response :: response where
  "complete_response =
     json_response 200 ''{\"state\": \"COMPLETE\", \"txHash\": \"0xhash\"}''
       (PyDict [(''state'', PyStr ''COMPLETE''), (''txHash'', PyStr ''0xhash'')])"

definition pay_ok_response :: response where
  "pay_ok_response =
     json_response 200 ''{\"success\": true, \"txId\": \"txn_402\"}''
       (PyDict [(''success'', PyBool True), (''txId'', PyStr ''txn_402'')])"

definition pay_rejected_response :: response where
  "pay_rejected_response =
     json_response 200 ''{\"success\": false, \"error\": \"insufficient funds\"}''
       (PyDict [(''success'', PyBool False), (''error'', PyStr ''insufficient funds'')])"

definition paywall_response :: "string \<Rightarrow> response" where
  "paywall_response challenge =
     \<lparr>status_code = 402, headers = [(''WWW-Authenticate'', challenge)], content = [], text' = [],
      json = Inl ''Expecting value: line 1 column 1 (char 0)''\<rparr>"

definition secret_response :: response where
  "secret_response = json_response 200 ''{\"secret\": \"data\"}'' (PyDict [(''secret'', PyStr ''data'')])"

text \<open>A server on which the transaction settles \<open>t\<close> seconds after the epoch of the clock: it
  reports \<open>PENDING\<close> before and \<open>COMPLETE\<close> from then on.\<close>

definition settles_after :: "rat \<Rightarrow> env" where
  "settles_after t =
     \<lparr>http = (\<lambda>w rq. \<lparr>elapsed = 0,
                       outcome = Inr (if now w < t then state_response ''PENDING'' else complete_response)\<rparr>),
      uuid4 = (\<lambda>n. ''00000000-0000-4000-8000-000000000000'')\<rparr>"

definition paywall_env :: "string \<Rightarrow> env" where
  "paywall_env challenge =
     scripted [paywall_response challenge, pay_ok_response, complete_response, secret_response]"

section \<open>Transport: classification of responses\<close>

lemma request_simps:
  "send E (session_request c m (base_url c @ endpoint) body) w = (out, w') \<Longrightarrow>
   request E c m endpoint body w =
     (case out of
        Inl msg \<Rightarrow> (Inl (ModexiaNetworkError (''Connection failed: '' @ msg)), w')
      | Inr r \<Rightarrow>
          if status_code r = 401 \<or> status_code r = 403 then
            (Inl (ModexiaAuthError (''Unauthorized: '' @ text' r)), w')
          else if status_code r \<ge> 400 \<and> status_code r \<noteq> 402 then
            (let fallback = PyStr (''HTTP '' @ str_int (status_code r) @ '' at '' @ base_url c @ endpoint
                                   @ '': '' @ take 512 (text' r));
                 err = (case json r of
                          Inl _ \<Rightarrow> fallback
                        | Inr v \<Rightarrow> (case py_get v ''error'' (PyStr (text' r)) of
                                      Inl _ \<Rightarrow> fallback
                                    | Inr e \<Rightarrow> e))
             in (Inl (ModexiaPaymentError err), w'))
          else if content r \<noteq> [] then
            (case json r of
               Inl msg \<Rightarrow> (Inl (ModexiaNetworkError (''Connection failed: '' @ msg)), w')
             | Inr v \<Rightarrow> (Inr v, w'))
          else (Inr (PyDict []), w'))"
  by (simp add: request_def Let_def split: sum.splits)

lemma send_always:
  "send (always r) rq w = (Inr r, w\<lparr>sent := sent w @ [rq]\<rparr>)"
  by (simp add: send_def always_def)

lemma send_failing:
  "send (failing msg) rq w = (Inl msg, w\<lparr>sent := sent w @ [rq]\<rparr>)"
  by (simp add: send_def failing_def)

text \<open>
  C1 (as amended). Whatever the session returns for a request: a connection-level fault
  raises \<open>ModexiaNetworkError\<close>; a response with status 401 or 403 raises
  \<open>ModexiaAuthError\<close>; a response with any other status from 400 up, except 402, raises
  \<open>ModexiaPaymentError\<close>; a response with status 402 raises neither of the two and is
  handled as a success: its parsed JSON body is returned, the empty dictionary when the
  body is empty.
\<close>

theorem request_classification:
  assumes "send E (session_request c m (base_url c @ endpoint) body) w = (out, w')"
  shows "(\<forall>msg. out = Inl msg \<longrightarrow>
            request E c m endpoint body w = (Inl (ModexiaNetworkError (''Connection failed: '' @ msg)), w'))
       \<and> (\<forall>r. out = Inr r \<and> (status_code r = 401 \<or> status_code r = 403) \<longrightarrow>
            request E c m endpoint body w = (Inl (ModexiaAuthError (''Unauthorized: '' @ text' r)), w'))
       \<and> (\<forall>r. out = Inr r \<and> 400 \<le> status_code r \<and> status_code r \<notin> {401, 402, 403} \<longrightarrow>
            (\<exists>err. request E c m endpoint body w = (Inl (ModexiaPaymentError err), w')))
       \<and> (\<forall>r. out = Inr r \<and> status_code r = 402 \<longrightarrow>
            (\<forall>e. request E c m endpoint body w \<noteq> (Inl (ModexiaAuthError e), w'))
          \<and> (\<forall>e. request E c m endpoint body w \<noteq> (Inl (ModexiaPaymentError e), w'))
          \<and> (content r = [] \<longrightarrow> request E c m endpoint body w = (Inr (PyDict []), w'))
          \<and> (\<forall>v. content r \<noteq> [] \<and> json r = Inr v \<longrightarrow> request E c m endpoint body w = (Inr v, w')))"
  by (auto simp: request_simps [OF assms] Let_def split: sum.splits)

theorem request_classification_witness:
  "fst (request (failing ''timed out'') client0 ''GET'' ''/api/v1/user/me'' None world0)
     = Inl (ModexiaNetworkError ''Connection failed: timed out'')
   \<and> fst (request (always (text_response 401 ''Invalid API key'')) client0 ''GET'' ''/api/v1/user/me'' None world0)
     = Inl (ModexiaAuthError ''Unauthorized: Invalid API key'')
   \<and> (\<exists>err. fst (request (always (text_response 502 ''Bad Gateway'')) client0 ''GET'' ''/api/v1/user/me'' None world0)
     = Inl (ModexiaPaymentError err))
   \<and> fst (request (always (json_response 402 ''{\"price\": 1}'' (PyDict [(''price'', PyInt 1)]))) client0
             ''GET'' ''/api/v1/user/me'' None world0)
     = Inr (PyDict [(''price'', PyInt 1)])"
proof -
  note a = request_classification [OF send_failing, of "''timed out''" client0 "''GET''" "''/api/v1/user/me''" None world0]
  note b = request_classification [OF send_always, of "text_response 401 ''Invalid API key''" client0 "''GET''" "''/api/v1/user/me''" None world0]
  note c = request_classification [OF send_always, of "text_response 502 ''Bad Gateway''" client0 "''GET''" "''/api/v1/user/me''" None world0]
  note d = request_classification [OF send_always, of "json_response 402 ''{\"price\": 1}'' (PyDict [(''price'', PyInt 1)])" client0 "''GET''" "''/api/v1/user/me''" None world0]
  have "fst (request (failing ''timed out'') client0 ''GET'' ''/api/v1/user/me'' None world0)
     = Inl (ModexiaNetworkError ''Connection failed: timed out'')"
    using a by simp
  moreover have "fst (request (always (text_response 401 ''Invalid API key'')) client0 ''GET'' ''/api/v1/user/me'' None world0)
     = Inl (ModexiaAuthError ''Unauthorized: Invalid API key'')"
    using b by (simp add: text_response_def)
  moreover have "\<exists>err. fst (request (always (text_response 502 ''Bad Gateway'')) client0 ''GET'' ''/api/v1/user/me'' None world0)
     = Inl (ModexiaPaymentError err)"
    using c by (auto simp: text_response_def)
  moreover have "fst (request (always (json_response 402 ''{\"price\": 1}'' (PyDict [(''price'', PyInt 1)]))) client0
             ''GET'' ''/api/v1/user/me'' None world0)
     = Inr (PyDict [(''price'', PyInt 1)])"
    using d by (simp add: json_response_def)
  ultimately show ?thesis by blast
qed

text \<open>
  C1 as stated fails: a 402 response whose body is not JSON does raise an error. The
  body goes through \<^verbatim>\<open>response.json()\<close> like that of a 200 response.
\<close>

theorem request_402_not_json_raises:
  "status_code (text_response 402 ''<html>Payment Required</html>'') = 402
   \<and> fst (request (always (text_response 402 ''<html>Payment Required</html>'')) client0
             ''GET'' ''/api/v1/user/me'' None world0)
     = Inl (ModexiaNetworkError ''Connection failed: Expecting value: line 1 column 1 (char 0)'')"
  by (simp add: request_simps [OF send_always] text_response_def)

section \<open>Transport: the message of a payment error\<close>

text \<open>
  C6 (as amended). For a response with status from 400 up other than 401, 402 and 403, the
  object raised in \<open>ModexiaPaymentError\<close> is: the \<open>error\<close> entry when the body parses as a
  JSON object that has one; the whole raw body, with no prefix and no cap, when the body
  parses as a JSON object without an \<open>error\<close> entry; and in every other case the text
  \<^verbatim>\<open>HTTP <status> at <url>: \<close> followed by the first 512 characters of the raw body. Only in
  this last case is the server-provided part bounded.
\<close>

theorem payment_error_message:
  assumes "send E (session_request c m (base_url c @ endpoint) body) w = (Inr r, w')"
      and "400 \<le> status_code r" and "status_code r \<notin> {401, 402, 403}"
  shows "\<exists>err. request E c m endpoint body w = (Inl (ModexiaPaymentError err), w')
       \<and> (\<forall>kvs e. json r = Inr (PyDict kvs) \<and> map_of kvs ''error'' = Some e \<longrightarrow> err = e)
       \<and> (\<forall>kvs. json r = Inr (PyDict kvs) \<and> map_of kvs ''error'' = None \<longrightarrow> err = PyStr (text' r))
       \<and> ((\<forall>kvs. json r \<noteq> Inr (PyDict kvs)) \<longrightarrow>
            (\<exists>excerpt. err = PyStr (''HTTP '' @ str_int (status_code r) @ '' at '' @ base_url c @ endpoint
                                   @ '': '' @ excerpt)
                     \<and> excerpt = take 512 (text' r) \<and> length excerpt \<le> 512))"
proof (cases "json r")
  case (Inl msg)
  then show ?thesis using assms(2,3) by (simp add: request_simps [OF assms(1)] Let_def)
next
  case (Inr v)
  then show ?thesis using assms(2,3)
    by (cases v) (auto simp: request_simps [OF assms(1)] Let_def split: option.splits)
qed

theorem payment_error_message_witness:
  "fst (request (always (json_response 400 ''{\"error\": \"Insufficient funds\"}''
          (PyDict [(''error'', PyStr ''Insufficient funds'')]))) client0 ''POST'' ''/api/v1/agent/pay'' None world0)
     = Inl (ModexiaPaymentError (PyStr ''Insufficient funds''))
   \<and> fst (request (always (text_response 502 ''<html><body>502 Bad Gateway</body></html>'')) client0
          ''GET'' ''/api/v1/user/me'' None world0)
     = Inl (ModexiaPaymentError (PyStr
         ''HTTP 502 at https://sandbox.modexia.software/api/v1/user/me: <html><body>502 Bad Gateway</body></html>''))"
proof -
  note a = payment_error_message [OF send_always, of "json_response 400 ''{\"error\": \"Insufficient funds\"}''
          (PyDict [(''error'', PyStr ''Insufficient funds'')])" client0 "''POST''" "''/api/v1/agent/pay''" None world0]
  note b = payment_error_message [OF send_always, of "text_response 502 ''<html><body>502 Bad Gateway</body></html>''"
          client0 "''GET''" "''/api/v1/user/me''" None world0]
  have "fst (request (always (json_response 400 ''{\"error\": \"Insufficient funds\"}''
          (PyDict [(''error'', PyStr ''Insufficient funds'')]))) client0 ''POST'' ''/api/v1/agent/pay'' None world0)
     = Inl (ModexiaPaymentError (PyStr ''Insufficient funds''))"
    using a by (auto simp: json_response_def)
  moreover have "fst (request (always (text_response 502 ''<html><body>502 Bad Gateway</body></html>'')) client0
          ''GET'' ''/api/v1/user/me'' None world0)
     = Inl (ModexiaPaymentError (PyStr
         ''HTTP 502 at https://sandbox.modexia.software/api/v1/user/me: <html><body>502 Bad Gateway</body></html>''))"
    using b by (auto simp: text_response_def client0_def str_int_def)
  ultimately show ?thesis by blast
qed

text \<open>
  C6 as stated fails: a 500 response whose body is a JSON object without an \<open>error\<close>
  entry puts the whole body, here 615 characters, into the message, with no prefix.
\<close>

theorem payment_error_message_unbounded:
  "fst (request (always (json_response 500 long_body long_body_json)) client0
          ''GET'' ''/api/v1/user/me'' None world0)
     = Inl (ModexiaPaymentError (PyStr long_body))
   \<and> length long_body = 615"
  by (simp add: request_simps [OF send_always] json_response_def long_body_json_def long_body_def)

section \<open>Balance query\<close>




section \<open>Transaction poller\<close>

lemma send_sent: "send E rq w = (out, w') \<Longrightarrow> sent w' = sent w @ [rq] \<and> draws w' = draws w"
  by (auto simp: send_def Let_def)

lemma request_sent:
  "request E c m endpoint body w = (res, w') \<Longrightarrow>
   sent w' = sent w @ [session_request c m (base_url c @ endpoint) body] \<and> draws w' = draws w"
  by (auto simp: request_def Let_def split: prod.splits sum.splits if_splits dest: send_sent)

lemma poll_sent:
  "request E c ''GET'' (''/api/v1/agent/transaction/'' @ py_str tx_id) None w = (res, w') \<Longrightarrow>
   sent w' = sent w @ [poll_request c tx_id] \<and> draws w' = draws w"
  by (simp add: poll_request_def request_sent)

lemma poll_loop_timeout:
  "\<not> now w - start < 30 \<Longrightarrow> poll_loop E c tx_id start w = (Inr (pending_result tx_id), w)"
  by (subst poll_loop.simps) (simp add: pending_result_def)

lemma poll_loop_error:
  "now w - start < 30 \<Longrightarrow>
   request E c ''GET'' (''/api/v1/agent/transaction/'' @ py_str tx_id) None w = (Inl e, w1) \<Longrightarrow>
   poll_loop E c tx_id start w = (Inl e, w1)"
  by (subst poll_loop.simps) simp

lemma poll_loop_poll:
  "now w - start < 30 \<Longrightarrow>
   request E c ''GET'' (''/api/v1/agent/transaction/'' @ py_str tx_id) None w = (Inr data, w1) \<Longrightarrow>
   poll_loop E c tx_id start w =
     (case py_get data ''state'' (PyStr []) of
        Inl e \<Rightarrow> (Inl e, w1)
      | Inr st \<Rightarrow>
          (case py_upper st of
             Inl e \<Rightarrow> (Inl e, w1)
           | Inr state \<Rightarrow>
               if state \<in> set [''COMPLETE'', ''COMPLETED''] then
                 (case py_get data ''txHash'' PyNone of
                    Inl e \<Rightarrow> (Inl e, w1)
                  | Inr tx_hash \<Rightarrow>
                      (Inr (PyDict [(''success'', PyBool True), (''txId'', tx_id),
                                    (''status'', PyStr ''COMPLETE''), (''txHash'', tx_hash)]), w1))
               else if state = ''FAILED'' then
                 (case py_get data ''errorReason'' PyNone of
                    Inl e \<Rightarrow> (Inl e, w1)
                  | Inr reason \<Rightarrow>
                      (Inl (ModexiaPaymentError (PyStr (''Transfer Failed: '' @ py_str reason))), w1))
               else poll_loop E c tx_id start (sleep 2 w1)))"
  by (subst poll_loop.simps) simp

lemma poll_loop_sent:
  "poll_loop E c tx_id start w = (res, w') \<Longrightarrow>
   \<exists>n. sent w' = sent w @ replicate n (poll_request c tx_id) \<and> draws w' = draws w"
proof (induction E c tx_id start w rule: poll_loop.induct)
  case (1 E c tx_id start w)
  show ?case
  proof (cases "now w - start < 30")
    case False
    with 1(2) have "w' = w" by (simp add: poll_loop_timeout)
    then show ?thesis by (auto intro: exI [of _ 0])
  next
    case True
    obtain r w1 where rq: "request E c ''GET'' (''/api/v1/agent/transaction/'' @ py_str tx_id) None w = (r, w1)"
      by (cases "request E c ''GET'' (''/api/v1/agent/transaction/'' @ py_str tx_id) None w")
    note s1 = poll_sent [OF rq]
    have one: "w' = w1 \<Longrightarrow> ?thesis"
      using s1 by (auto intro: exI [of _ 1])
    show ?thesis
    proof (cases r)
      case (Inl e)
      with 1(2) True rq have "w' = w1" by (simp add: poll_loop_error)
      then show ?thesis by (rule one)
    next
      case (Inr data)
      note step = poll_loop_poll [OF True rq [unfolded Inr]]
      show ?thesis
      proof (cases "py_get data ''state'' (PyStr [])")
        case (Inl e)
        with 1(2) step have "w' = w1" by simp
        then show ?thesis by (rule one)
      next
        case st: (Inr st)
        show ?thesis
        proof (cases "py_upper st")
          case (Inl e)
          with 1(2) step st have "w' = w1" by simp
          then show ?thesis by (rule one)
        next
          case state: (Inr state)
          show ?thesis
          proof (cases "state \<in> set [''COMPLETE'', ''COMPLETED''] \<or> state = ''FAILED''")
            case True
            with 1(2) step st state have "w' = w1"
              by (auto split: sum.splits if_splits)
            then show ?thesis by (rule one)
          next
            case False
            with 1(2) step st state have "poll_loop E c tx_id start (sleep 2 w1) = (res, w')"
              by auto
            from 1(1) [OF \<open>now w - start < 30\<close> rq [symmetric] Inr st state _ _ this] False
            obtain n where "sent w' = sent (sleep 2 w1) @ replicate n (poll_request c tx_id)"
              "draws w' = draws (sleep 2 w1)"
              by auto
            with s1 have "sent w' = sent w @ replicate (Suc n) (poll_request c tx_id) \<and> draws w' = draws w"
              by (simp add: sleep_def)
            then show ?thesis by blast
          qed
        qed
      qed
    qed
  qed
qed

lemma iterates_poll_loop:
  "iterates E c tx_id start w w' \<Longrightarrow> poll_loop E c tx_id start w = poll_loop E c tx_id start w'"
  by (induction rule: iterates.induct) (simp_all add: poll_loop_poll)

text \<open>
  C4. In every run of the poller: when the loop has come to a world \<open>w\<close> by polls that did
  not end it, is still within its 30 seconds, and the poll made at \<open>w\<close> reports a state whose
  upper-casing is \<open>FAILED\<close>, the run raises \<open>ModexiaPaymentError\<close> with the message
  \<^verbatim>\<open>Transfer Failed: \<close> followed by the server's \<open>errorReason\<close> (\<^verbatim>\<open>None\<close> when absent), and the
  run ends in the world right after that poll: the poll is the last request issued.
\<close>

theorem poll_failed_raises:
  assumes "iterates E c tx_id (now w0) w0 w"
      and "now w - now w0 < 30"
      and "request E c ''GET'' (''/api/v1/agent/transaction/'' @ py_str tx_id) None w = (Inr (PyDict kvs), w1)"
      and "map_of kvs ''state'' = Some (PyStr s)"
      and "upper s = ''FAILED''"
  shows "poll_status E c tx_id w0 =
           (Inl (ModexiaPaymentError (PyStr (''Transfer Failed: '' @
              py_str (case map_of kvs ''errorReason'' of Some reason \<Rightarrow> reason | None \<Rightarrow> PyNone)))), w1)
       \<and> sent w1 = sent w @ [poll_request c tx_id]"
proof -
  have "poll_status E c tx_id w0 = poll_loop E c tx_id (now w0) w"
    unfolding poll_status_def using assms(1) by (rule iterates_poll_loop)
  also have "\<dots> = (Inl (ModexiaPaymentError (PyStr (''Transfer Failed: '' @
              py_str (case map_of kvs ''errorReason'' of Some reason \<Rightarrow> reason | None \<Rightarrow> PyNone)))), w1)"
    using assms(4,5) by (simp add: poll_loop_poll [OF assms(2,3)])
  finally show ?thesis
    using poll_sent [OF assms(3)] by simp
qed

theorem poll_failed_raises_witness:
  "poll_status (scripted [state_response ''PENDING'', failed_response]) client0 (PyStr ''txn_123'') world0
     = (Inl (ModexiaPaymentError (PyStr ''Transfer Failed: insufficient funds'')),
        \<lparr>now = 2, sent = [poll_request client0 (PyStr ''txn_123''), poll_request client0 (PyStr ''txn_123'')],
         draws = 0\<rparr>)"
proof -
  let ?E = "scripted [state_response ''PENDING'', failed_response]"
  let ?rq = "poll_request client0 (PyStr ''txn_123'')"
  have first: "request ?E client0 ''GET'' (''/api/v1/agent/transaction/'' @ py_str (PyStr ''txn_123'')) None world0
      = (Inr (PyDict [(''state'', PyStr ''PENDING'')]), \<lparr>now = 0, sent = [?rq], draws = 0\<rparr>)"
    by (simp add: request_def send_def scripted_def state_response_def json_response_def world0_def
          poll_request_def py_str_def)
  have it: "iterates ?E client0 (PyStr ''txn_123'') (now world0) world0 \<lparr>now = 2, sent = [?rq], draws = 0\<rparr>"
    using iterates.again [OF iterates.entry _ first, of "now world0" "PyStr ''PENDING''" "''PENDING''"]
    by (simp add: sleep_def world0_def upper_def upper_char_def)
  have second: "request ?E client0 ''GET'' (''/api/v1/agent/transaction/'' @ py_str (PyStr ''txn_123'')) None
        \<lparr>now = 2, sent = [?rq], draws = 0\<rparr>
      = (Inr (PyDict [(''state'', PyStr ''failed''), (''errorReason'', PyStr ''insufficient funds'')]),
         \<lparr>now = 2, sent = [?rq, ?rq], draws = 0\<rparr>)"
    by (simp add: request_def send_def scripted_def failed_response_def json_response_def
          poll_request_def py_str_def)
  from poll_failed_raises [OF it _ second, of "''failed''"] show ?thesis
    by (simp add: world0_def upper_def upper_char_def py_str_def)
qed

lemma upper_char_lower_char: "upper_char (lower_char c) = upper_char c"
  by (simp add: upper_char_def lower_char_def)

lemma upper_char_idem: "upper_char (upper_char c) = upper_char c"
  by (simp add: upper_char_def)

lemma upper_lower: "upper (lower s) = upper s"
  by (simp add: upper_def lower_def upper_char_lower_char)

lemma upper_upper: "upper (upper s) = upper s"
  by (simp add: upper_def upper_char_idem)

text \<open>
  C5 (as amended). The state is compared after upper-casing, so its letter case does not
  matter (\<open>upper_lower\<close>, \<open>upper_upper\<close>). A poll within the budget whose state upper-cases to \<open>COMPLETE\<close> or \<open>COMPLETED\<close> ends
  the run with the success result. A state that upper-cases to anything other than
  \<open>COMPLETE\<close>, \<open>COMPLETED\<close> and \<open>FAILED\<close> (\<open>PENDING\<close>, a missing state, any unrecognised word) is
  not terminal: the poller sleeps 2 seconds and goes on polling.
\<close>

theorem poll_state_decision:
  assumes "now w - start < 30"
      and "request E c ''GET'' (''/api/v1/agent/transaction/'' @ py_str tx_id) None w = (Inr (PyDict kvs), w1)"
      and "(case map_of kvs ''state'' of Some v \<Rightarrow> v | None \<Rightarrow> PyStr []) = PyStr s"
  shows "(upper s = ''COMPLETE'' \<or> upper s = ''COMPLETED'' \<longrightarrow>
            poll_loop E c tx_id start w =
              (Inr (PyDict [(''success'', PyBool True), (''txId'', tx_id), (''status'', PyStr ''COMPLETE''),
                            (''txHash'', case map_of kvs ''txHash'' of Some h \<Rightarrow> h | None \<Rightarrow> PyNone)]), w1))
       \<and> (upper s \<noteq> ''COMPLETE'' \<and> upper s \<noteq> ''COMPLETED'' \<and> upper s \<noteq> ''FAILED'' \<longrightarrow>
            poll_loop E c tx_id start w = poll_loop E c tx_id start (sleep 2 w1))"
  using assms(3) by (auto simp: poll_loop_poll [OF assms(1,2)])

theorem poll_state_decision_witness:
  "poll_loop (scripted [state_response ''processing'', state_response ''Completed'']) client0 (PyStr ''txn_123'') 0 world0
     = poll_loop (scripted [state_response ''processing'', state_response ''Completed'']) client0 (PyStr ''txn_123'') 0
         \<lparr>now = 2, sent = [poll_request client0 (PyStr ''txn_123'')], draws = 0\<rparr>
   \<and> poll_loop (scripted [state_response ''processing'', state_response ''Completed'']) client0 (PyStr ''txn_123'') 0
         \<lparr>now = 2, sent = [poll_request client0 (PyStr ''txn_123'')], draws = 0\<rparr>
     = (Inr (PyDict [(''success'', PyBool True), (''txId'', PyStr ''txn_123''), (''status'', PyStr ''COMPLETE''),
                     (''txHash'', PyNone)]),
        \<lparr>now = 2, sent = [poll_request client0 (PyStr ''txn_123''), poll_request client0 (PyStr ''txn_123'')],
         draws = 0\<rparr>)"
proof -
  let ?E = "scripted [state_response ''processing'', state_response ''Completed'']"
  let ?rq = "poll_request client0 (PyStr ''txn_123'')"
  have first: "request ?E client0 ''GET'' (''/api/v1/agent/transaction/'' @ py_str (PyStr ''txn_123'')) None world0
      = (Inr (PyDict [(''state'', PyStr ''processing'')]), \<lparr>now = 0, sent = [?rq], draws = 0\<rparr>)"
    by (simp add: request_def send_def scripted_def state_response_def json_response_def world0_def
          poll_request_def py_str_def)
  have second: "request ?E client0 ''GET'' (''/api/v1/agent/transaction/'' @ py_str (PyStr ''txn_123'')) None
        \<lparr>now = 2, sent = [?rq], draws = 0\<rparr>
      = (Inr (PyDict [(''state'', PyStr ''Completed'')]), \<lparr>now = 2, sent = [?rq, ?rq], draws = 0\<rparr>)"
    by (simp add: request_def send_def scripted_def state_response_def json_response_def
          poll_request_def py_str_def)
  from poll_state_decision [OF _ first, of 0 "''processing''"]
       poll_state_decision [OF _ second, of 0 "''Completed''"]
  show ?thesis
    by (simp add: world0_def upper_def upper_char_def sleep_def)
qed

text \<open>
  C5 as stated fails: \<open>COMPLETED\<close> is outside the set PENDING, COMPLETE, FAILED, yet the
  poller does not go on polling. It returns the success result after that one poll.
\<close>

theorem poll_completed_is_terminal:
  "poll_status (always (state_response ''COMPLETED'')) client0 (PyStr ''txn_123'') world0
     = (Inr (PyDict [(''success'', PyBool True), (''txId'', PyStr ''txn_123''), (''status'', PyStr ''COMPLETE''),
                     (''txHash'', PyNone)]),
        \<lparr>now = 0, sent = [poll_request client0 (PyStr ''txn_123'')], draws = 0\<rparr>)"
  by (simp add: poll_status_def poll_loop.simps request_simps [OF send_always] state_response_def
        json_response_def world0_def poll_request_def py_str_def upper_def upper_char_def)

lemma ceiling_half_step:
  fixes a b :: rat
  assumes "b + 2 \<le> a"
  shows "\<lceil>b / 2\<rceil> + 1 \<le> \<lceil>a / 2\<rceil>"
proof -
  have "\<lceil>b / 2\<rceil> + 1 = \<lceil>b / 2 + 1\<rceil>" by simp
  also have "\<dots> \<le> \<lceil>a / 2\<rceil>" using assms by (intro ceiling_mono) simp
  finally show ?thesis .
qed

lemma poll_loop_pending:
  assumes "\<forall>w. iterates E c tx_id start w0 w \<and> now w - start < 30 \<longrightarrow>
             (\<exists>kvs s w1.
                request E c ''GET'' (''/api/v1/agent/transaction/'' @ py_str tx_id) None w = (Inr (PyDict kvs), w1)
                \<and> map_of kvs ''state'' = Some (PyStr s) \<and> upper s = ''PENDING'')"
      and "iterates E c tx_id start w0 w"
  shows "\<exists>w' n. poll_loop E c tx_id start w = (Inr (pending_result tx_id), w')
           \<and> 30 \<le> now w' - start
           \<and> sent w' = sent w @ replicate n (poll_request c tx_id)
           \<and> int n \<le> max 0 \<lceil>(30 - (now w - start)) / 2\<rceil>
           \<and> (now w - start < 30 \<longrightarrow> 1 \<le> n)"
  using assms
proof (induction E c tx_id start w rule: poll_loop.induct)
  case (1 E c tx_id start w)
  show ?case
  proof (cases "now w - start < 30")
    case False
    then show ?thesis
      by (auto simp: poll_loop_timeout intro!: exI [of _ w] exI [of _ 0])
  next
    case True
    from 1(2,3) True obtain kvs s w1 where
      rq: "request E c ''GET'' (''/api/v1/agent/transaction/'' @ py_str tx_id) None w = (Inr (PyDict kvs), w1)"
      and st: "map_of kvs ''state'' = Some (PyStr s)" and up: "upper s = ''PENDING''"
      by blast
    have step: "poll_loop E c tx_id start w = poll_loop E c tx_id start (sleep 2 w1)"
      using st up by (simp add: poll_loop_poll [OF True rq])
    have g: "py_get (PyDict kvs) ''state'' (PyStr []) = Inr (PyStr s)"
      using st by simp
    have u: "py_upper (PyStr s) = Inr ''PENDING''"
      using up by simp
    have it: "iterates E c tx_id start w0 (sleep 2 w1)"
      by (rule iterates.again [OF 1(3) True rq g u]) simp_all
    have "\<exists>w' n. poll_loop E c tx_id start (sleep 2 w1) = (Inr (pending_result tx_id), w')
           \<and> 30 \<le> now w' - start
           \<and> sent w' = sent (sleep 2 w1) @ replicate n (poll_request c tx_id)
           \<and> int n \<le> max 0 \<lceil>(30 - (now (sleep 2 w1) - start)) / 2\<rceil>
           \<and> (now (sleep 2 w1) - start < 30 \<longrightarrow> 1 \<le> n)"
      by (rule 1(1) [OF True rq [symmetric] refl g u _ _ 1(2) it]) simp_all
    then obtain w' n where
      res: "poll_loop E c tx_id start (sleep 2 w1) = (Inr (pending_result tx_id), w')"
      and late: "30 \<le> now w' - start"
      and log: "sent w' = sent (sleep 2 w1) @ replicate n (poll_request c tx_id)"
      and bound: "int n \<le> max 0 \<lceil>(30 - (now (sleep 2 w1) - start)) / 2\<rceil>"
      by blast
    have "now w \<le> now w1" using rq by (rule request_now)
    then have "(30 - (now (sleep 2 w1) - start)) + 2 \<le> 30 - (now w - start)"
      by (simp add: sleep_def)
    then have "\<lceil>(30 - (now (sleep 2 w1) - start)) / 2\<rceil> + 1 \<le> \<lceil>(30 - (now w - start)) / 2\<rceil>"
      by (rule ceiling_half_step)
    moreover have "0 < \<lceil>(30 - (now w - start)) / 2\<rceil>"
      using True by simp
    ultimately have "int (Suc n) \<le> max 0 \<lceil>(30 - (now w - start)) / 2\<rceil>"
      using bound by linarith
    moreover have "sent w' = sent w @ replicate (Suc n) (poll_request c tx_id)"
      using log poll_sent [OF rq] by (simp add: sleep_def)
    ultimately show ?thesis
      using res late step by (intro exI [of _ w'] exI [of _ "Suc n"]) simp
  qed
qed

text \<open>
  C3. On a run of the poller in which every poll is answered with a state that upper-cases to
  \<open>PENDING\<close>, the poller returns, without raising, the dictionary
  \<^verbatim>\<open>{success: True, status: "PENDING", txId}\<close>, at least 30 seconds after it started and after
  between 1 and 15 status requests. The hypothesis speaks of the polls of this run only: of
  the worlds in which the loop is at its test (\<open>iterates\<close>) with time left. What the server
  would answer at any other moment, for instance once the 30 seconds are over, is left open.
\<close>

theorem poll_soft_timeout:
  assumes "\<forall>w. iterates E c tx_id (now w0) w0 w \<and> now w - now w0 < 30 \<longrightarrow>
             (\<exists>kvs s w1.
                request E c ''GET'' (''/api/v1/agent/transaction/'' @ py_str tx_id) None w = (Inr (PyDict kvs), w1)
                \<and> map_of kvs ''state'' = Some (PyStr s) \<and> upper s = ''PENDING'')"
  shows "\<exists>w' n. poll_status E c tx_id w0 =
             (Inr (PyDict [(''success'', PyBool True), (''status'', PyStr ''PENDING''), (''txId'', tx_id)]), w')
           \<and> 30 \<le> now w' - now w0
           \<and> 1 \<le> n \<and> n \<le> 15
           \<and> sent w' = sent w0 @ replicate n (poll_request c tx_id)"
proof -
  from poll_loop_pending [OF assms iterates.entry] obtain w' n where
    "poll_loop E c tx_id (now w0) w0 = (Inr (pending_result tx_id), w')"
    "30 \<le> now w' - now w0" "sent w' = sent w0 @ replicate n (poll_request c tx_id)"
    "int n \<le> 15" "1 \<le> n"
    by auto
  then show ?thesis
    by (intro exI [of _ w'] exI [of _ n]) (simp add: poll_status_def pending_result_def)
qed

theorem poll_soft_timeout_witness:
  "fst (poll_status (settles_after 40) client0 (PyStr ''txn_123'') world0)
     = Inr (PyDict [(''success'', PyBool True), (''status'', PyStr ''PENDING''), (''txId'', PyStr ''txn_123'')])
   \<and> 30 \<le> now (snd (poll_status (settles_after 40) client0 (PyStr ''txn_123'') world0)) - now world0"
proof -
  have "\<forall>w. iterates (settles_after 40) client0 (PyStr ''txn_123'') (now world0) world0 w
               \<and> now w - now world0 < 30 \<longrightarrow>
          (\<exists>kvs s w1.
             request (settles_after 40) client0 ''GET''
               (''/api/v1/agent/transaction/'' @ py_str (PyStr ''txn_123'')) None w = (Inr (PyDict kvs), w1)
             \<and> map_of kvs ''state'' = Some (PyStr s) \<and> upper s = ''PENDING'')"
  proof (intro allI impI)
    fix w
    assume "iterates (settles_after 40) client0 (PyStr ''txn_123'') (now world0) world0 w
              \<and> now w - now world0 < 30"
    then have "now w < 40"
      by (simp add: world0_def)
    then show "\<exists>kvs s w1.
             request (settles_after 40) client0 ''GET''
               (''/api/v1/agent/transaction/'' @ py_str (PyStr ''txn_123'')) None w = (Inr (PyDict kvs), w1)
             \<and> map_of kvs ''state'' = Some (PyStr s) \<and> upper s = ''PENDING''"
      by (simp add: request_def send_def settles_after_def state_response_def json_response_def
            upper_def upper_char_def)
  qed
  from poll_soft_timeout [OF this] show ?thesis
    by auto
qed

section \<open>Payment submission\<close>

text \<open>
  C10. When the submission is answered with a dictionary whose \<open>success\<close> entry is missing
  or falsy, \<^verbatim>\<open>transfer\<close> with \<^verbatim>\<open>wait=True\<close> returns that dictionary as it is, and the submission
  is the only request issued: no status request follows.
\<close>

theorem transfer_unsuccessful_submission:
  assumes "(case idempotency_key of
              None \<Rightarrow> draw_uuid E w
            | Some k \<Rightarrow> if k \<noteq> [] then (k, w) else draw_uuid E w) = (ikey, w0)"
      and "request E c ''POST'' ''/api/v1/agent/pay''
             (Some (PyDict [(''providerAddress'', PyStr recipient), (''amount'', PyStr (float_repr amount)),
                            (''idempotencyKey'', PyStr ikey)])) w0 = (Inr (PyDict kvs), w1)"
      and "\<not> py_truthy (case map_of kvs ''success'' of Some v \<Rightarrow> v | None \<Rightarrow> PyNone)"
  shows "transfer E c recipient amount idempotency_key True w = (Inr (PyDict kvs), w1)
       \<and> sent w1 = sent w @ [pay_request c recipient (float_repr amount) ikey]"
proof -
  have "sent w0 = sent w"
    using assms(1) by (auto simp: draw_uuid_def split: option.splits if_splits)
  then show ?thesis
    using assms request_sent [OF assms(2)] by (simp add: transfer_def pay_request_def)
qed

theorem transfer_unsuccessful_submission_witness:
  "transfer (always pay_rejected_response) client0 ''0xRecipient'' (PFinite False 5 1) (Some ''key-1'') True world0
     = (Inr (PyDict [(''success'', PyBool False), (''error'', PyStr ''insufficient funds'')]),
        \<lparr>now = 0, sent = [pay_request client0 ''0xRecipient'' ''10.0'' ''key-1''], draws = 0\<rparr>)"
proof -
  have amount: "float_repr (PFinite False 5 1) = ''10.0''"
    by code_simp
  have key: "(case Some ''key-1'' of
                None \<Rightarrow> draw_uuid (always pay_rejected_response) world0
              | Some k \<Rightarrow> if k \<noteq> [] then (k, world0) else draw_uuid (always pay_rejected_response) world0)
             = (''key-1'', world0)"
    by simp
  have sub: "request (always pay_rejected_response) client0 ''POST'' ''/api/v1/agent/pay''
               (Some (PyDict [(''providerAddress'', PyStr ''0xRecipient''),
                              (''amount'', PyStr (float_repr (PFinite False 5 1))),
                              (''idempotencyKey'', PyStr ''key-1'')])) world0
             = (Inr (PyDict [(''success'', PyBool False), (''error'', PyStr ''insufficient funds'')]),
                \<lparr>now = 0, sent = [pay_request client0 ''0xRecipient'' ''10.0'' ''key-1''], draws = 0\<rparr>)"
    by (simp add: request_simps [OF send_always] pay_rejected_response_def json_response_def world0_def
          pay_request_def amount)
  from transfer_unsuccessful_submission [OF key sub] show ?thesis
    by (simp add: amount)
qed

lemma via_plain_get: "via (plain_get c u ps hs) = Plain"
  by (simp add: plain_get_def)

lemma via_pay_request: "via (pay_request c recipient amount ikey) = Session"
  by (simp add: pay_request_def session_request_def)

lemma transfer_sent:
  assumes "transfer E c recipient amount None wait w = (res, w')"
  shows "\<exists>polls. sent w' = sent w @ pay_request c recipient (float_repr amount) (uuid4 E (draws w)) # polls
           \<and> list_all (\<lambda>q. via q = Session \<and> http_method q = ''GET'') polls"
proof -
  obtain r w1 where rq: "request E c ''POST'' ''/api/v1/agent/pay''
             (Some (PyDict [(''providerAddress'', PyStr recipient), (''amount'', PyStr (float_repr amount)),
                            (''idempotencyKey'', PyStr (uuid4 E (draws w)))])) (w\<lparr>draws := Suc (draws w)\<rparr>) = (r, w1)"
    by (cases "request E c ''POST'' ''/api/v1/agent/pay''
             (Some (PyDict [(''providerAddress'', PyStr recipient), (''amount'', PyStr (float_repr amount)),
                            (''idempotencyKey'', PyStr (uuid4 E (draws w)))])) (w\<lparr>draws := Suc (draws w)\<rparr>)")
  have s1: "sent w1 = sent w @ [pay_request c recipient (float_repr amount) (uuid4 E (draws w))]"
    using request_sent [OF rq] by (simp add: pay_request_def)
  have direct: ?thesis if "w' = w1"
    by (rule exI [of _ "[]"]) (simp add: that s1)
  have polled: "poll_status E c tx_id w1 = (res, w') \<Longrightarrow> ?thesis" for tx_id
  proof -
    assume "poll_status E c tx_id w1 = (res, w')"
    then obtain n where "sent w' = sent w1 @ replicate n (poll_request c tx_id)"
      unfolding poll_status_def using poll_loop_sent by blast
    with s1 show ?thesis
      by (simp add: list_all_iff poll_request_def session_request_def)
  qed
  have "transfer E c recipient amount None wait w =
          (case r of
             Inl e \<Rightarrow> (Inl e, w1)
           | Inr data \<Rightarrow>
               if wait then
                 (case py_get data ''success'' PyNone of
                    Inl e \<Rightarrow> (Inl e, w1)
                  | Inr success \<Rightarrow>
                      if py_truthy success then
                        (case py_get data ''txId'' PyNone of
                           Inl e \<Rightarrow> (Inl e, w1)
                         | Inr tx_id \<Rightarrow> poll_status E c tx_id w1)
                      else (Inr data, w1))
               else (Inr data, w1))"
    using rq by (simp add: transfer_def draw_uuid_def)
  with assms consider "w' = w1" | tx_id where "poll_status E c tx_id w1 = (res, w')"
    by (auto split: sum.splits if_splits)
  then show ?thesis
  proof cases
    case 1
    then show ?thesis by (rule direct)
  next
    case 2
    then show ?thesis by (rule polled)
  qed
qed

section \<open>Paywall negotiation\<close>

lemma match_attr_prefix:
  assumes "match_attr name s = Some v"
  shows "\<exists>post. s = name @ [CHR ''='', CHR 0x22] @ post"
proof -
  define op where "op = name @ [CHR ''='', CHR 0x22]"
  from assms have "take (length op) s = op"
    by (simp add: match_attr_def Let_def op_def split: if_splits)
  then have "s = op @ drop (length op) s"
    by (metis append_take_drop_id)
  then show ?thesis
    unfolding op_def by (intro exI [of _ "drop (length (name @ [CHR ''='', CHR 0x22])) s"]) simp
qed

lemma search_attr_absent:
  "\<not> (\<exists>pre post. s = pre @ name @ [CHR ''='', CHR 0x22] @ post) \<Longrightarrow> search_attr name s = None"
proof (induction s)
  case Nil
  then show ?case by simp
next
  case (Cons c cs)
  have "match_attr name (c # cs) = None"
  proof (cases "match_attr name (c # cs)")
    case (Some v)
    then obtain post where "c # cs = [] @ name @ [CHR ''='', CHR 0x22] @ post"
      using match_attr_prefix by fastforce
    with Cons.prems show ?thesis by blast
  qed simp
  moreover have "\<not> (\<exists>pre post. cs = pre @ name @ [CHR ''='', CHR 0x22] @ post)"
  proof
    assume "\<exists>pre post. cs = pre @ name @ [CHR ''='', CHR 0x22] @ post"
    then obtain pre post where "c # cs = (c # pre) @ name @ [CHR ''='', CHR 0x22] @ post"
      by auto
    with Cons.prems show False by blast
  qed
  ultimately show ?case using Cons.IH by simp
qed

text \<open>
  C8. When the first GET is answered with status 402 and the \<^verbatim>\<open>WWW-Authenticate\<close> header has
  no match for the amount attribute or none for the destination attribute (by
  \<open>search_attr_absent\<close>, in particular when the attribute does not occur), \<^verbatim>\<open>smart_fetch\<close>
  returns that 402 response, and the GET is the only request issued: nothing is paid.
\<close>

theorem smart_fetch_malformed_challenge:
  assumes "send E (plain_get c u ps (case hs0 of None \<Rightarrow> [] | Some h \<Rightarrow> h)) w = (Inr r, w1)"
      and "status_code r = 402"
      and "search_attr ''amount'' (headers_get (headers r) ''WWW-Authenticate'' []) = None
         \<or> search_attr ''destination'' (headers_get (headers r) ''WWW-Authenticate'' []) = None"
  shows "smart_fetch E c u ps hs0 w = (Inr r, w1)
       \<and> sent w1 = sent w @ [plain_get c u ps (case hs0 of None \<Rightarrow> [] | Some h \<Rightarrow> h)]"
proof -
  have "negotiate_paywall E c r w1 = (Inr PyNone, w1)"
    using assms(3) by (auto simp: negotiate_paywall_def Let_def split: option.splits)
  then show ?thesis
    using send_sent [OF assms(1)] by (simp add: smart_fetch_def assms(1,2))
qed

theorem smart_fetch_malformed_challenge_witness:
  "smart_fetch (always (paywall_response ''L402 amount=\"1.50\"'')) client0 ''https://example.com/premium-data''
       None None world0
     = (Inr (paywall_response ''L402 amount=\"1.50\"''),
        \<lparr>now = 0, sent = [plain_get client0 ''https://example.com/premium-data'' None []], draws = 0\<rparr>)"
proof -
  have dst: "search_attr ''destination''
               (headers_get (headers (paywall_response ''L402 amount=\"1.50\"'')) ''WWW-Authenticate'' []) = None"
    by code_simp
  from smart_fetch_malformed_challenge [OF send_always _ disjI2 [OF dst], of client0
         "''https://example.com/premium-data''" None None world0]
  show ?thesis
    by (simp add: paywall_response_def world0_def)
qed

text \<open>
  What \<^verbatim>\<open>float\<close> strips from an amount: the white space of C and the two spaces beyond ASCII,
  not the separators 0x1C to 0x1F, with which the amount raises \<^verbatim>\<open>ValueError\<close> and nothing is
  paid.
\<close>

lemma py_float_white_space:
  "py_float [CHR 0x09, CHR ''3'', CHR 0x0C, CHR 0x0D] = Inr (PFinite False 3 0)"
  "py_float [CHR 0xA0, CHR ''3'', CHR 0x85] = Inr (PFinite False 3 0)"
  "py_float [CHR 0x1C, CHR ''3''] = Inl ValueError"
  "py_float [CHR ''3'', CHR 0x1F] = Inl ValueError"
  "py_float [CHR ''3'', CHR 0xE9] = Inl ValueError"
  by code_simp+

lemma negotiate_paywall_separator_raises:
  "negotiate_paywall E client0
     (paywall_response (''L402 amount=\"'' @ [CHR 0x1C] @ ''3\" destination=\"0xCreator\"'')) world0
   = (Inl ValueError, world0)"
proof -
  let ?r = "paywall_response (''L402 amount=\"'' @ [CHR 0x1C] @ ''3\" destination=\"0xCreator\"'')"
  have amt: "search_attr ''amount'' (headers_get (headers ?r) ''WWW-Authenticate'' []) = Some [CHR 0x1C, CHR ''3'']"
    by code_simp
  have dst: "search_attr ''destination'' (headers_get (headers ?r) ''WWW-Authenticate'' []) = Some ''0xCreator''"
    by code_simp
  have fl: "py_float [CHR 0x1C, CHR ''3''] = Inl ValueError"
    by code_simp
  show ?thesis
    unfolding negotiate_paywall_def Let_def amt dst by (simp add: fl)
qed

lemma negotiate_paywall_pays:
  assumes "search_attr ''amount'' (headers_get (headers r) ''WWW-Authenticate'' []) = Some a"
      and "search_attr ''destination'' (headers_get (headers r) ''WWW-Authenticate'' []) = Some d"
      and "py_float a = Inr x"
      and "negotiate_paywall E c r w = (res, w')"
  shows "\<exists>polls. sent w' = sent w @ pay_request c d (float_repr x) (uuid4 E (draws w)) # polls
           \<and> list_all (\<lambda>q. via q = Session \<and> http_method q = ''GET'') polls"
proof -
  from assms have "transfer E c d x None True w = (res, w')"
    by (simp add: negotiate_paywall_def)
  then show ?thesis by (rule transfer_sent)
qed

text \<open>
  C7 (as amended). For a 402 challenge with an amount and a destination attribute whose
  amount text \<open>a\<close> is accepted by \<^verbatim>\<open>float\<close>, the first request of the negotiation is the
  payment submission, and its \<open>amount\<close> field is \<^verbatim>\<open>str(float(a))\<close>: the shortest decimal that
  reads back as the double nearest to \<open>a\<close>. Only status requests follow it.
\<close>

theorem negotiate_paywall_amount_on_wire:
  assumes "search_attr ''amount'' (headers_get (headers r) ''WWW-Authenticate'' []) = Some a"
      and "search_attr ''destination'' (headers_get (headers r) ''WWW-Authenticate'' []) = Some d"
      and "py_float a = Inr x"
      and "negotiate_paywall E c r w = (res, w')"
  shows "\<exists>polls. sent w' = sent w @ pay_request c d (float_repr x) (uuid4 E (draws w)) # polls
           \<and> list_all (\<lambda>q. via q = Session \<and> http_method q = ''GET'') polls"
  using assms by (rule negotiate_paywall_pays)

theorem negotiate_paywall_amount_on_wire_witness:
  "map json_body (take 1 (sent (snd (negotiate_paywall (scripted [pay_ok_response, complete_response]) client0
        (paywall_response ''L402 amount=\"1.5\" destination=\"0xCreator\"'') world0))))
     = [Some (PyDict [(''providerAddress'', PyStr ''0xCreator''), (''amount'', PyStr ''1.5''),
                      (''idempotencyKey'', PyStr ''00000000-0000-4000-8000-000000000000'')])]"
proof -
  let ?r = "paywall_response ''L402 amount=\"1.5\" destination=\"0xCreator\"''"
  let ?E = "scripted [pay_ok_response, complete_response]"
  have amt: "search_attr ''amount'' (headers_get (headers ?r) ''WWW-Authenticate'' []) = Some ''1.5''"
    by code_simp
  have dst: "search_attr ''destination'' (headers_get (headers ?r) ''WWW-Authenticate'' []) = Some ''0xCreator''"
    by code_simp
  have fl: "py_float ''1.5'' = Inr (PFinite False 3 (- 1))"
    by code_simp
  have rp: "float_repr (PFinite False 3 (- 1)) = ''1.5''"
    by code_simp
  from negotiate_paywall_amount_on_wire [OF amt dst fl surjective_pairing, of ?E client0 world0]
  show ?thesis
    by (auto simp: rp pay_request_def session_request_def world0_def scripted_def)
qed

text \<open>
  C7 as stated fails on its own example: for the challenge amount \<^verbatim>\<open>1.50\<close> the submission
  carries the amount \<^verbatim>\<open>1.5\<close>.
\<close>

theorem paywall_amount_text_not_preserved:
  "search_attr ''amount''
       (headers_get (headers (paywall_response ''L402 amount=\"1.50\" destination=\"0xCreator\"''))
          ''WWW-Authenticate'' []) = Some ''1.50''
   \<and> map json_body (take 1 (sent (snd (negotiate_paywall (scripted [pay_ok_response, complete_response]) client0
        (paywall_response ''L402 amount=\"1.50\" destination=\"0xCreator\"'') world0))))
     = [Some (PyDict [(''providerAddress'', PyStr ''0xCreator''), (''amount'', PyStr ''1.5''),
                      (''idempotencyKey'', PyStr ''00000000-0000-4000-8000-000000000000'')])]"
  by code_simp

text \<open>
  C2. When the first GET is answered with status 402, the header has both attributes, the
  amount is accepted by \<^verbatim>\<open>float\<close>, and the payment returns a receipt with transaction id
  \<open>t\<close>, then \<^verbatim>\<open>smart_fetch\<close> repeats the GET with the caller's headers plus
  \<^verbatim>\<open>Authorization: L402 t\<close> and \<^verbatim>\<open>X-Payment-Proof: t\<close>, and returns whatever that second GET
  gives, response or exception. The call issues exactly these two GETs; everything between
  them goes to the payment service.
\<close>

theorem smart_fetch_paid_retry:
  assumes "send E (plain_get c u ps (case hs0 of None \<Rightarrow> [] | Some h \<Rightarrow> h)) w = (Inr r1, w1)"
      and "status_code r1 = 402"
      and "search_attr ''amount'' (headers_get (headers r1) ''WWW-Authenticate'' []) = Some a"
      and "search_attr ''destination'' (headers_get (headers r1) ''WWW-Authenticate'' []) = Some d"
      and "py_float a = Inr x"
      and "transfer E c d x None True w1 = (Inr receipt, w2)"
      and "py_truthy receipt"
      and "py_get receipt ''txId'' PyNone = Inr (PyStr t)"
      and "hs2 = AList.update ''X-Payment-Proof'' (PyStr t)
                   (AList.update ''Authorization'' (PyStr (''L402 '' @ t)) (case hs0 of None \<Rightarrow> [] | Some h \<Rightarrow> h))"
      and "send E (plain_get c u ps hs2) w2 = (out, w3)"
  shows "smart_fetch E c u ps hs0 w =
           (case out of Inl msg \<Rightarrow> Inl (RequestException msg) | Inr r2 \<Rightarrow> Inr r2, w3)
       \<and> map_of hs2 ''Authorization'' = Some (PyStr (''L402 '' @ t))
       \<and> map_of hs2 ''X-Payment-Proof'' = Some (PyStr t)
       \<and> filter (\<lambda>q. via q = Plain) (drop (length (sent w)) (sent w3))
           = [plain_get c u ps (case hs0 of None \<Rightarrow> [] | Some h \<Rightarrow> h), plain_get c u ps hs2]"
proof -
  have neg: "negotiate_paywall E c r1 w1 = (Inr receipt, w2)"
    using assms(3-6) by (simp add: negotiate_paywall_def)
  have res: "smart_fetch E c u ps hs0 w =
           (case out of Inl msg \<Rightarrow> Inl (RequestException msg) | Inr r2 \<Rightarrow> Inr r2, w3)"
    using assms(10) [unfolded assms(9)]
    by (cases out) (simp_all add: smart_fetch_def Let_def py_str_def assms(1,2,7,8) neg)
  have hdr: "map_of hs2 ''Authorization'' = Some (PyStr (''L402 '' @ t))"
            "map_of hs2 ''X-Payment-Proof'' = Some (PyStr t)"
    unfolding assms(9) by (simp_all add: update_conv')
  from transfer_sent [OF assms(6)] obtain polls where
    polls: "sent w2 = sent w1 @ pay_request c d (float_repr x) (uuid4 E (draws w1)) # polls"
    and all: "list_all (\<lambda>q. via q = Session \<and> http_method q = ''GET'') polls"
    by blast
  have none: "filter (\<lambda>q. via q = Plain) polls = []"
    using all by (auto simp: filter_empty_conv list_all_iff)
  have "sent w1 = sent w @ [plain_get c u ps (case hs0 of None \<Rightarrow> [] | Some h \<Rightarrow> h)]"
    using send_sent [OF assms(1)] by simp
  moreover have "sent w3 = sent w2 @ [plain_get c u ps hs2]"
    using send_sent [OF assms(10)] by simp
  ultimately have "drop (length (sent w)) (sent w3) =
      plain_get c u ps (case hs0 of None \<Rightarrow> [] | Some h \<Rightarrow> h)
        # pay_request c d (float_repr x) (uuid4 E (draws w1)) # polls @ [plain_get c u ps hs2]"
    using polls by simp
  then have "filter (\<lambda>q. via q = Plain) (drop (length (sent w)) (sent w3))
           = [plain_get c u ps (case hs0 of None \<Rightarrow> [] | Some h \<Rightarrow> h), plain_get c u ps hs2]"
    using none by (simp add: via_plain_get via_pay_request)
  with res hdr show ?thesis by simp
qed

theorem smart_fetch_paid_retry_witness:
  "fst (smart_fetch (paywall_env ''L402 amount=\"1.50\" destination=\"0xCreator\"'') client0
          ''https://example.com/premium-data'' None None world0) = Inr secret_response
   \<and> map req_headers (filter (\<lambda>q. via q = Plain)
        (sent (snd (smart_fetch (paywall_env ''L402 amount=\"1.50\" destination=\"0xCreator\"'') client0
          ''https://example.com/premium-data'' None None world0))))
     = [[], [(''Authorization'', PyStr ''L402 txn_402''), (''X-Payment-Proof'', PyStr ''txn_402'')]]"
proof -
  let ?ch = "''L402 amount=\"1.50\" destination=\"0xCreator\"''"
  let ?E = "paywall_env ?ch"
  let ?u = "''https://example.com/premium-data''"
  let ?w1 = "\<lparr>now = 0, sent = [plain_get client0 ?u None []], draws = 0\<rparr>"
  let ?receipt = "PyDict [(''success'', PyBool True), (''txId'', PyStr ''txn_402''),
                          (''status'', PyStr ''COMPLETE''), (''txHash'', PyStr ''0xhash'')]"
  let ?hs2 = "[(''Authorization'', PyStr ''L402 txn_402''), (''X-Payment-Proof'', PyStr ''txn_402'')]"
  have h9: "?hs2 = AList.update ''X-Payment-Proof'' (PyStr ''txn_402'')
                     (AList.update ''Authorization'' (PyStr (''L402 '' @ ''txn_402''))
                        (case None of None \<Rightarrow> [] | Some h \<Rightarrow> h))"
    by simp
  have h1: "send ?E (plain_get client0 ?u None (case None of None \<Rightarrow> [] | Some h \<Rightarrow> h)) world0
              = (Inr (paywall_response ?ch), ?w1)"
    by (simp add: send_def paywall_env_def scripted_def world0_def)
  have h2: "status_code (paywall_response ?ch) = 402"
    by (simp add: paywall_response_def)
  have h3: "search_attr ''amount'' (headers_get (headers (paywall_response ?ch)) ''WWW-Authenticate'' []) = Some ''1.50''"
    by code_simp
  have h4: "search_attr ''destination'' (headers_get (headers (paywall_response ?ch)) ''WWW-Authenticate'' [])
              = Some ''0xCreator''"
    by code_simp
  have h5: "py_float ''1.50'' = Inr (PFinite False 3 (- 1))"
    by code_simp
  have "fst (transfer ?E client0 ''0xCreator'' (PFinite False 3 (- 1)) None True ?w1) = Inr ?receipt"
    by code_simp
  then have h6: "transfer ?E client0 ''0xCreator'' (PFinite False 3 (- 1)) None True ?w1
                   = (Inr ?receipt, snd (transfer ?E client0 ''0xCreator'' (PFinite False 3 (- 1)) None True ?w1))"
    by (simp add: prod_eq_iff)
  have h7: "py_truthy ?receipt" by simp
  have h8: "py_get ?receipt ''txId'' PyNone = Inr (PyStr ''txn_402'')" by simp
  have out: "fst (send ?E (plain_get client0 ?u None ?hs2)
                    (snd (transfer ?E client0 ''0xCreator'' (PFinite False 3 (- 1)) None True ?w1)))
               = Inr secret_response"
    by code_simp
  note pr = smart_fetch_paid_retry [OF h1 h2 h3 h4 h5 h6 h7 h8 h9 surjective_pairing]
  let ?w3 = "snd (send ?E (plain_get client0 ?u None ?hs2)
                    (snd (transfer ?E client0 ''0xCreator'' (PFinite False 3 (- 1)) None True ?w1)))"
  have a: "smart_fetch ?E client0 ?u None None world0 = (Inr secret_response, ?w3)"
    unfolding pr [THEN conjunct1] out by simp
  have "sent world0 = []"
    by (simp add: world0_def)
  then have b: "filter (\<lambda>q. via q = Plain) (sent ?w3)
                  = [plain_get client0 ?u None [], plain_get client0 ?u None ?hs2]"
    using pr [THEN conjunct2, THEN conjunct2, THEN conjunct2] by simp
  show ?thesis
    unfolding a fst_conv snd_conv b by (simp add: plain_get_def)
qed

text \<open>No call of \<^verbatim>\<open>smart_fetch\<close>, whatever happens, issues more than two GETs.\<close>

lemma negotiate_paywall_sent:
  assumes "negotiate_paywall E c r w = (res, w')"
  shows "\<exists>new. sent w' = sent w @ new \<and> filter (\<lambda>q. via q = Plain) new = []"
proof (cases "\<exists>a d x. search_attr ''amount'' (headers_get (headers r) ''WWW-Authenticate'' []) = Some a
          \<and> search_attr ''destination'' (headers_get (headers r) ''WWW-Authenticate'' []) = Some d
          \<and> py_float a = Inr x")
  case True
  then obtain a d x where
    h: "search_attr ''amount'' (headers_get (headers r) ''WWW-Authenticate'' []) = Some a"
       "search_attr ''destination'' (headers_get (headers r) ''WWW-Authenticate'' []) = Some d"
       "py_float a = Inr x"
    by blast
  from negotiate_paywall_pays [OF h assms] obtain polls where
    "sent w' = sent w @ pay_request c d (float_repr x) (uuid4 E (draws w)) # polls"
    "list_all (\<lambda>q. via q = Session \<and> http_method q = ''GET'') polls"
    by blast
  then show ?thesis
    by (intro exI [of _ "pay_request c d (float_repr x) (uuid4 E (draws w)) # polls"])
       (auto simp: via_pay_request filter_empty_conv list_all_iff)
next
  case False
  with assms have "w' = w"
    by (auto simp: negotiate_paywall_def Let_def split: option.splits sum.splits)
  then show ?thesis by simp
qed

lemma smart_fetch_at_most_two_gets:
  assumes "smart_fetch E c u ps hs0 w = (res, w')"
  shows "length (filter (\<lambda>q. via q = Plain) (drop (length (sent w)) (sent w'))) \<le> 2"
proof -
  let ?hs = "case hs0 of None \<Rightarrow> [] | Some h \<Rightarrow> h"
  obtain out w1 where s1: "send E (plain_get c u ps ?hs) w = (out, w1)"
    by (cases "send E (plain_get c u ps ?hs) w")
  have l1: "sent w1 = sent w @ [plain_get c u ps ?hs]"
    using send_sent [OF s1] by simp
  have direct: ?thesis if "w' = w1"
    using l1 that by simp
  show ?thesis
  proof (cases out)
    case (Inl msg)
    with assms s1 have "w' = w1" by (simp add: smart_fetch_def)
    then show ?thesis by (rule direct)
  next
    case (Inr r)
    show ?thesis
    proof (cases "status_code r = 402")
      case False
      with assms s1 Inr have "w' = w1" by (simp add: smart_fetch_def)
      then show ?thesis by (rule direct)
    next
      case True
      obtain nres w2 where n: "negotiate_paywall E c r w1 = (nres, w2)"
        by (cases "negotiate_paywall E c r w1")
      from negotiate_paywall_sent [OF n] obtain new where
        l2: "sent w2 = sent w1 @ new" "filter (\<lambda>q. via q = Plain) new = []"
        by blast
      have paid: ?thesis if "w' = w2"
        using l1 l2 that by simp
      have retried: ?thesis if "send E rq w2 = (out2, w')" for rq out2
        using l1 l2 send_sent [OF that] by simp
      from assms s1 Inr True n consider "w' = w2" | rq out2 where "send E rq w2 = (out2, w')"
        by (auto simp: smart_fetch_def Let_def split: sum.splits if_splits prod.splits)
      then show ?thesis
      proof cases
        case 1
        then show ?thesis by (rule paid)
      next
        case 2
        then show ?thesis by (rule retried)
      qed
    qed
  qed
qed

end
